theory Spec2Isabelle
  imports Main "HOL-Library.AList" "HOL-Library.Sublist"
begin

section \<open>JavaScript values\<close>

text \<open>
  The manifest is whatever \<^verbatim>\<open>JSON.parse\<close> returns, and the program builds new objects from
  it with spreads, property reads and \<^verbatim>\<open>delete\<close>. A value is modelled as the tree below. An
  object is the list of its own enumerable properties in enumeration order; \<open>Undefined\<close>
  is JavaScript's \<^verbatim>\<open>undefined\<close>, which \<^verbatim>\<open>JSON.parse\<close> never produces but the program
  itself stores into objects. A number is a double: a finite one is kept as a mantissa
  \<open>m\<close> and a binary exponent \<open>e\<close> (the value \<open>m * 2 ^ e\<close>), next to it there is
  the negative zero, and \<^verbatim>\<open>JSON.parse\<close> also gives the two infinities (for \<^verbatim>\<open>1e400\<close>,
  say). The program never computes with numbers; only \<^verbatim>\<open>JSON.stringify\<close> looks at
  them.
\<close>

datatype number = Finite int int | NegZero | PosInfinity | NegInfinity | NaN

datatype jsval =
    Undefined
  | Null
  | Bool bool
  | Num number
  | Str string
  | Arr "jsval list"
  | Obj "(string \<times> jsval) list"

type_synonym props = "(string \<times> jsval) list"

text \<open>
  Modelled from the spec: the enum \<^verbatim>\<open>Runner\<close> of \<^verbatim>\<open>./utils\<close> is not in the source file.
  The spec gives the package-manager choice two values, the default one and the alternate
  one; the source names the alternate one \<^verbatim>\<open>Runner.Yarn\<close>.
\<close>

datatype runner = Npm | Yarn

type_synonym path = "string list"

datatype error =
    ENOENT path
  | SyntaxError
  | TypeError
  | NoFilesMatch path
  | TaskFailed string

text \<open>
  A value read back from JSON text holds no \<open>Undefined\<close> and no \<open>NaN\<close> anywhere, and no
  object of it has a key twice. In a \<open>stable_json\<close> value every number is one that
  \<^verbatim>\<open>JSON.stringify\<close> writes as it is: a finite one, and not the negative zero.
\<close>

primrec is_json :: "jsval \<Rightarrow> bool" where
  "is_json Undefined = False"
| "is_json Null = True"
| "is_json (Bool b) = True"
| "is_json (Num n) = (n \<noteq> NaN)"
| "is_json (Str s) = True"
| "is_json (Arr xs) = list_all is_json xs"
| "is_json (Obj kvs) =
     (distinct (map fst kvs) \<and> list_all (pred_prod (\<lambda>k. True) is_json) kvs)"

primrec stable_json :: "jsval \<Rightarrow> bool" where
  "stable_json Undefined = True"
| "stable_json Null = True"
| "stable_json (Bool b) = True"
| "stable_json (Num n) = (case n of Finite m e \<Rightarrow> True | _ \<Rightarrow> False)"
| "stable_json (Str s) = True"
| "stable_json (Arr xs) = list_all stable_json xs"
| "stable_json (Obj kvs) = list_all (pred_prod (\<lambda>k. True) stable_json) kvs"

text \<open>Decimal spelling of an array index, as the property key of an element.\<close>

fun show_nat :: "nat \<Rightarrow> string" where
  "show_nat n =
     (if n < 10 then [''0123456789'' ! n]
      else show_nat (n div 10) @ [''0123456789'' ! (n mod 10)])"

declare show_nat.simps [simp del]

definition indexed :: "jsval list \<Rightarrow> props" where
  "indexed xs = zip (map show_nat [0..<length xs]) xs"

text \<open>
  The own enumerable properties that an object spread \<^verbatim>\<open>{...v}\<close> copies: those of an
  object, the indexed elements of an array, the indexed characters of a string, and
  nothing for \<^verbatim>\<open>undefined\<close>, \<^verbatim>\<open>null\<close>, booleans and numbers.
\<close>

fun own_props :: "jsval \<Rightarrow> props" where
  "own_props (Obj kvs) = kvs"
| "own_props (Arr xs) = indexed xs"
| "own_props (Str s) = indexed (map (\<lambda>c. Str [c]) s)"
| "own_props v = []"

text \<open>
  The property read \<^verbatim>\<open>v[k]\<close>. Reading from \<^verbatim>\<open>undefined\<close> or \<^verbatim>\<open>null\<close> throws a
  TypeError; a missing property reads as \<^verbatim>\<open>undefined\<close>. Arrays and strings also answer
  \<^verbatim>\<open>length\<close>. Inherited (prototype) members are not modelled: none of the property names
  the program reads is one.
\<close>

fun get_prop :: "jsval \<Rightarrow> string \<Rightarrow> error + jsval" where
  "get_prop Undefined k = Inl TypeError"
| "get_prop Null k = Inl TypeError"
| "get_prop (Obj kvs) k = Inr (case map_of kvs k of None \<Rightarrow> Undefined | Some v \<Rightarrow> v)"
| "get_prop (Arr xs) k =
     Inr (if k = ''length'' then Num (Finite (int (length xs)) 0)
          else case map_of (indexed xs) k of None \<Rightarrow> Undefined | Some v \<Rightarrow> v)"
| "get_prop (Str s) k =
     Inr (if k = ''length'' then Num (Finite (int (length s)) 0)
          else case map_of (indexed (map (\<lambda>c. Str [c]) s)) k of
                 None \<Rightarrow> Undefined | Some v \<Rightarrow> v)"
| "get_prop v k = Inr Undefined"

text \<open>
  The tree that \<^verbatim>\<open>JSON.stringify\<close> writes out: a property whose value serializes to
  \<^verbatim>\<open>undefined\<close> is left out of its object, and an \<^verbatim>\<open>undefined\<close> array element is
  written as \<^verbatim>\<open>null\<close>, and so is a number that is not finite; the negative zero is
  written as zero. The layout of the text (two-space indentation, quoting) is a parameter
  of the model, see \<open>json_layout\<close> below.
\<close>

primrec serialize :: "jsval \<Rightarrow> jsval" where
  "serialize Undefined = Undefined"
| "serialize Null = Null"
| "serialize (Bool b) = Bool b"
| "serialize (Num n) =
     (case n of Finite m e \<Rightarrow> Num n | NegZero \<Rightarrow> Num (Finite 0 0) | _ \<Rightarrow> Null)"
| "serialize (Str s) = Str s"
| "serialize (Arr xs) =
     Arr (map (\<lambda>v. if v = Undefined then Null else v) (map serialize xs))"
| "serialize (Obj kvs) =
     Obj (filter (\<lambda>kv. snd kv \<noteq> Undefined) (map (map_prod (\<lambda>k. k) serialize) kvs))"

section \<open>The derived manifest\<close>

text \<open>
  The options that \<^verbatim>\<open>typescriptStarter\<close> destructures (lines 23 to 36); the type of
  \<^verbatim>\<open>repoInfo\<close>, which is only handed to \<^verbatim>\<open>tasks.cloneRepo\<close>, is a parameter.
\<close>

record 'r options =
  description :: string
  domDefinitions :: bool
  email :: string
  fullName :: string
  githubUsername :: string
  install :: bool
  nodeDefinitions :: bool
  projectName :: string
  repoInfo :: 'r
  runner :: runner
  vscode :: bool
  workingDirectory :: path

definition keptDevDeps :: "string list" where
  "keptDevDeps =
     [''@ava/typescript'',
      ''@istanbuljs/nyc-config-typescript'',
      ''@typescript-eslint/eslint-plugin'',
      ''@typescript-eslint/parser'',
      ''ava'',
      ''eslint'',
      ''eslint-config-prettier'',
      ''eslint-plugin-eslint-comments'',
      ''eslint-plugin-import'',
      ''gh-pages'',
      ''npm-run-all'',
      ''nyc'',
      ''open-cli'',
      ''prettier'',
      ''standard-version'',
      ''trash-cli'',
      ''ts-node'',
      ''typedoc'',
      ''typescript'']"

definition nodeKeptDeps :: "string list" where
  "nodeKeptDeps = []"

text \<open>
  \<^verbatim>\<open>keep.reduce((acc, moduleName) => ({ ...acc, [moduleName]: from[moduleName] }), {})\<close>:
  the accumulator is copied and the key set (in place when it is there already, at the
  end otherwise). With an empty \<open>keep\<close> the callback never runs and \<open>from\<close> is never read.
\<close>

fun filterAllBut_from :: "jsval \<Rightarrow> props \<Rightarrow> string list \<Rightarrow> error + props" where
  "filterAllBut_from from acc [] = Inr acc"
| "filterAllBut_from from acc (moduleName # rest) =
     (case get_prop from moduleName of
        Inl e \<Rightarrow> Inl e
      | Inr v \<Rightarrow> filterAllBut_from from (AList.update moduleName v acc) rest)"

definition filterAllBut :: "string list \<Rightarrow> jsval \<Rightarrow> error + props" where
  "filterAllBut keep from = filterAllBut_from from [] keep"

definition version_script :: "string \<Rightarrow> string" where
  "version_script name = ''standard-version -t '' @ name @ [CHR 0x5C, CHR ''@'']"

definition reset_hard_yarn :: string where
  "reset_hard_yarn = ''git clean -dfx && git reset --hard && yarn''"

definition scripts :: "'r options \<Rightarrow> jsval \<Rightarrow> error + props" where
  "scripts opts pkg =
     (case get_prop pkg ''scripts'' of
        Inl e \<Rightarrow> Inl e
      | Inr inherited \<Rightarrow>
          Inr (let with_version =
                     AList.update ''version'' (Str (version_script (projectName opts)))
                       (own_props inherited)
               in if runner opts = Yarn
                  then AList.update ''reset-hard'' (Str reset_hard_yarn) with_version
                  else with_version))"

definition sets :: "(string \<times> jsval) list \<Rightarrow> props \<Rightarrow> props" where
  "sets kvs obj = foldl (\<lambda>acc kv. AList.update (fst kv) (snd kv) acc) obj kvs"

text \<open>
  Lines 100 to 124: the object literal is evaluated left to right (the spread of
  \<open>pkg\<close>, then each property), then the three \<^verbatim>\<open>delete\<close>s.
\<close>

definition newPkg :: "'r options \<Rightarrow> jsval \<Rightarrow> error + props" where
  "newPkg opts pkg =
     (case scripts opts pkg of
        Inl e \<Rightarrow> Inl e
      | Inr scr \<Rightarrow>
     (case (if nodeDefinitions opts
            then (case get_prop pkg ''dependencies'' of
                    Inl e \<Rightarrow> Inl e
                  | Inr pkg_deps \<Rightarrow> filterAllBut nodeKeptDeps pkg_deps)
            else Inr []) of
        Inl e \<Rightarrow> Inl e
      | Inr deps \<Rightarrow>
     (case get_prop pkg ''devDependencies'' of
        Inl e \<Rightarrow> Inl e
      | Inr pkg_devDeps \<Rightarrow>
     (case filterAllBut keptDevDeps pkg_devDeps of
        Inl e \<Rightarrow> Inl e
      | Inr devDeps \<Rightarrow>
     (case get_prop pkg ''ava'' of
        Inl e \<Rightarrow> Inl e
      | Inr pkg_ava \<Rightarrow>
          Inr (AList.delete ''NOTE_2'' (AList.delete ''NOTE'' (AList.delete ''bin''
            (sets
              [(''dependencies'', Obj deps),
               (''description'', Str (description opts)),
               (''devDependencies'', Obj devDeps),
               (''keywords'', Arr []),
               (''name'', Str (projectName opts)),
               (''repository'',
                  Str (''https://github.com/'' @ githubUsername opts @ ''/'' @ projectName opts)),
               (''scripts'', Obj scr),
               (''version'', Str ''1.0.0''),
               (''ava'',
                  Obj (sets
                    [(''files'', Arr [Str ''!build/module/**'']),
                     (''ignoredByWatcher'', Undefined)]
                    (own_props pkg_ava)))]
              (own_props pkg))))))))))"

text \<open>A field of a derived manifest, for reading results (\<open>Undefined\<close> when there is none).\<close>

definition field :: "error + props \<Rightarrow> string \<Rightarrow> jsval" where
  "field res k =
     (case res of
        Inl e \<Rightarrow> Undefined
      | Inr obj \<Rightarrow> (case map_of obj k of None \<Rightarrow> Undefined | Some v \<Rightarrow> v))"

section \<open>Files, text replacement and the collaborators\<close>

text \<open>
  A path is the list of its components, so \<^verbatim>\<open>join(projectPath, 'src', 'index.ts')\<close> is
  \<open>projectPath @ [''src'', ''index.ts'']\<close>; \<^verbatim>\<open>normalizePath\<close> only respells a path for
  \<^verbatim>\<open>del\<close> and does not change the file it names. The disk is a map from the paths of
  files to their text. Every operation the program issues is also appended to a log, so
  that the order of operations can be stated.
\<close>

type_synonym disk = "path \<Rightarrow> string option"

datatype event =
    CloneRepo
  | Del "path list"
  | ReadFile path
  | WriteFile path
  | Replace path string string
  | Rename path path
  | Install runner path
  | InitialCommit string path string

record state =
  files :: disk
  log :: "event list"

datatype outcome = Done state | Failed error state

fun state_of :: "outcome \<Rightarrow> state" where
  "state_of (Done s) = s"
| "state_of (Failed e s) = s"

fun failure :: "outcome \<Rightarrow> error option" where
  "failure (Done s) = None"
| "failure (Failed e s) = Some e"

definition emit :: "event \<Rightarrow> state \<Rightarrow> state" where
  "emit e s = s\<lparr>log := log s @ [e]\<rparr>"

text \<open>
  Awaited calls in sequence: the first one that throws ends the run, and the disk stays
  as it was at that point.
\<close>

fun steps :: "(state \<Rightarrow> outcome) list \<Rightarrow> state \<Rightarrow> outcome" where
  "steps [] s = Done s"
| "steps (f # fs) s = (case f s of Done s' \<Rightarrow> steps fs s' | Failed e s' \<Rightarrow> Failed e s')"

text \<open>
  The parts of the run that are not in this source file are parameters: the three tasks
  (\<^verbatim>\<open>tasks.cloneRepo\<close>, \<^verbatim>\<open>tasks.install\<close>, \<^verbatim>\<open>tasks.initialCommit\<close>), which act on the
  disk and may fail; the two placeholder strings of \<^verbatim>\<open>Placeholders\<close>; and the text side
  of JSON, \<^verbatim>\<open>JSON.parse\<close> (\<open>None\<close> is its SyntaxError) and the layout that
  \<^verbatim>\<open>JSON.stringify(v, null, 2)\<close> gives to the tree \<open>serialize v\<close>; and whether a
  component of a glob pattern that has special characters matches a name,
  \<open>glob_component pattern name\<close> (see \<open>del\<close>).
\<close>

record 'r tasks =
  cloneRepo :: "'r \<Rightarrow> path \<Rightarrow> string \<Rightarrow> disk \<Rightarrow> (error + string \<times> path) \<times> disk"
  installTask :: "runner \<Rightarrow> path \<Rightarrow> disk \<Rightarrow> (error + unit) \<times> disk"
  initialCommit :: "string \<Rightarrow> path \<Rightarrow> string \<Rightarrow> disk \<Rightarrow> (error + unit) \<times> disk"

record env =
  json_parse :: "string \<Rightarrow> jsval option"
  json_layout :: "jsval \<Rightarrow> string"
  glob_component :: "string \<Rightarrow> string \<Rightarrow> bool"
  placeholder_name :: string
  placeholder_email :: string

text \<open>
  \<^verbatim>\<open>text.replace(from, to)\<close> with a string pattern, which is what \<^verbatim>\<open>replaceInFile\<close>
  applies to the text of the file: only the first occurrence is replaced, and in the
  replacement text \<^verbatim>\<open>$$\<close>, \<^verbatim>\<open>$&\<close>, \<^verbatim>\<open>$`\<close> and \<^verbatim>\<open>$'\<close> stand for a dollar sign, the
  match, the text before it and the text after it.
\<close>

fun indexOf :: "string \<Rightarrow> string \<Rightarrow> nat option" where
  "indexOf p [] = (if p = [] then Some 0 else None)"
| "indexOf p (c # s) =
     (if prefix p (c # s) then Some 0 else map_option Suc (indexOf p s))"

fun getSubstitution :: "string \<Rightarrow> string \<Rightarrow> string \<Rightarrow> string \<Rightarrow> string" where
  "getSubstitution matched preceding following [] = []"
| "getSubstitution matched preceding following [c] = [c]"
| "getSubstitution matched preceding following (c # d # t) =
     (if c = CHR ''$'' \<and> d = CHR ''$'' then CHR ''$'' # getSubstitution matched preceding following t
      else if c = CHR ''$'' \<and> d = CHR ''&'' then matched @ getSubstitution matched preceding following t
      else if c = CHR ''$'' \<and> d = CHR 0x60 then preceding @ getSubstitution matched preceding following t
      else if c = CHR ''$'' \<and> d = CHR 0x27 then following @ getSubstitution matched preceding following t
      else c # getSubstitution matched preceding following (d # t))"

definition js_replace :: "string \<Rightarrow> string \<Rightarrow> string \<Rightarrow> string" where
  "js_replace from to s =
     (case indexOf from s of
        None \<Rightarrow> s
      | Some i \<Rightarrow>
          take i s @ getSubstitution from (take i s) (drop (i + length from) s) to
            @ drop (i + length from) s)"

definition contains :: "string \<Rightarrow> string \<Rightarrow> bool" where
  "contains s p = (indexOf p s \<noteq> None)"

text \<open>
  \<^verbatim>\<open>replaceInFile({files, from, to})\<close> on one path: it rejects when no file matches the
  path, and otherwise rewrites the file's text (a text without the pattern is left as it
  is). The \<^verbatim>\<open>files\<close> argument is a glob pattern as well; it is read here as the path
  itself, which is what it is when the path is \<open>literal\<close>.
\<close>

definition replaceInFile :: "path \<Rightarrow> string \<Rightarrow> string \<Rightarrow> state \<Rightarrow> outcome" where
  "replaceInFile file from to s =
     (let s' = emit (Replace file from to) s in
      case files s file of
        None \<Rightarrow> Failed (NoFilesMatch file) s'
      | Some c \<Rightarrow> Done (s'\<lparr>files := (files s)(file \<mapsto> js_replace from to c)\<rparr>))"

text \<open>
  \<^verbatim>\<open>del(patterns)\<close> reads each argument as a glob pattern, matched against a path
  component by component: a component without a character that is special in a glob
  matches the name equal to it, the component \<^verbatim>\<open>**\<close> matches any number of names, and
  what any other component matches is the matcher's business, the parameter
  \<open>glob_component\<close>. A pattern selects the paths it matches and everything below them;
  a \<open>literal\<close> pattern, with no special character at all, so selects the path it spells
  and what is below it. The selected files are removed, and a pattern that selects
  nothing is skipped without an error. (Groups and braces that span a separator are
  beyond this matcher. \<^verbatim>\<open>del\<close> also refuses to remove what lies outside the working
  directory of the process; the paths of a run are taken to lie below it.)
\<close>

definition glob_special :: "char \<Rightarrow> bool" where
  "glob_special c = (c \<in> set ''*?[]{}()!|'' \<or> c = CHR 0x5C)"

definition plain :: "string \<Rightarrow> bool" where
  "plain component = list_all (\<lambda>c. \<not> glob_special c) component"

definition literal :: "path \<Rightarrow> bool" where
  "literal p = list_all plain p"

fun glob_path :: "env \<Rightarrow> path \<Rightarrow> path \<Rightarrow> bool" where
  "glob_path env [] file = (file = [])"
| "glob_path env (p # ps) [] = (p = ''**'' \<and> glob_path env ps [])"
| "glob_path env (p # ps) (x # xs) =
     (if p = ''**'' then glob_path env ps (x # xs) \<or> glob_path env (p # ps) xs
      else (if plain p then p = x else glob_component env p x) \<and> glob_path env ps xs)"

definition selects :: "env \<Rightarrow> path \<Rightarrow> path \<Rightarrow> bool" where
  "selects env pattern file =
     list_ex (\<lambda>n. glob_path env pattern (take n file)) [0..<Suc (length file)]"

definition del :: "env \<Rightarrow> path list \<Rightarrow> state \<Rightarrow> outcome" where
  "del env patterns s =
     Done ((emit (Del patterns) s)
       \<lparr>files := (\<lambda>q. if list_ex (\<lambda>p. selects env p q) patterns then None else files s q)\<rparr>)"

definition renameSync :: "path \<Rightarrow> path \<Rightarrow> state \<Rightarrow> outcome" where
  "renameSync old new s =
     (let s' = emit (Rename old new) s in
      case files s old of
        None \<Rightarrow> Failed (ENOENT old) s'
      | Some c \<Rightarrow> Done (s'\<lparr>files := ((files s)(old := None))(new \<mapsto> c)\<rparr>))"

definition readPackageJson :: "env \<Rightarrow> path \<Rightarrow> state \<Rightarrow> (error + jsval) \<times> state" where
  "readPackageJson env file s =
     (let s' = emit (ReadFile file) s in
      case files s file of
        None \<Rightarrow> (Inl (ENOENT file), s')
      | Some c \<Rightarrow>
          (case json_parse env c of
             None \<Rightarrow> (Inl SyntaxError, s')
           | Some pkg \<Rightarrow> (Inr pkg, s')))"

definition writePackageJson :: "env \<Rightarrow> path \<Rightarrow> jsval \<Rightarrow> state \<Rightarrow> outcome" where
  "writePackageJson env file pkg s =
     (let stringified = json_layout env (serialize pkg) @ [CHR ''\<newline>''] in
      Done ((emit (WriteFile file) s)\<lparr>files := (files s)(file \<mapsto> stringified)\<rparr>))"

definition task :: "event \<Rightarrow> (disk \<Rightarrow> (error + unit) \<times> disk) \<Rightarrow> state \<Rightarrow> outcome" where
  "task e run s =
     (let s' = emit e s in
      case run (files s) of
        (Inl err, d) \<Rightarrow> Failed err (s'\<lparr>files := d\<rparr>)
      | (Inr u, d) \<Rightarrow> Done (s'\<lparr>files := d\<rparr>))"

section \<open>The stages of typescriptStarter\<close>

definition lib_with_dom :: string where
  "lib_with_dom = ''\"lib\": [\"es2017\", \"dom\"]''"

definition lib_without_dom :: string where
  "lib_without_dom = ''\"lib\": [\"es2017\"]''"

definition types_with_node :: string where
  "types_with_node = ''\"types\": [\"node\"]''"

definition types_without_node :: string where
  "types_without_node = ''\"types\": []''"

definition export_hash :: string where
  "export_hash = ''export * from './lib/hash';\<newline>''"

definition export_async :: string where
  "export_async = ''export * from './lib/async';\<newline>''"

text \<open>Lines 50 to 127.\<close>

definition updatePackageJson :: "env \<Rightarrow> 'r options \<Rightarrow> path \<Rightarrow> state \<Rightarrow> outcome" where
  "updatePackageJson env opts projectPath s =
     (let pkgPath = projectPath @ [''package.json''] in
      case readPackageJson env pkgPath s of
        (Inl e, s') \<Rightarrow> Failed e s'
      | (Inr pkg, s') \<Rightarrow>
          (case newPkg opts pkg of
             Inl e \<Rightarrow> Failed e s'
           | Inr new \<Rightarrow> writePackageJson env pkgPath (Obj new) s'))"

text \<open>Lines 129 to 142.\<close>

definition updateGitignore :: "'r options \<Rightarrow> path \<Rightarrow> state \<Rightarrow> outcome" where
  "updateGitignore opts projectPath =
     steps
       (replaceInFile (projectPath @ [''.gitignore'']) ''diff\<newline>'' []
        # (if runner opts = Yarn
           then [replaceInFile (projectPath @ [''.gitignore'']) ''yarn.lock''
                   ''package-lock.json'']
           else []))"

text \<open>
  Lines 144 to 157. The deletion of \<^verbatim>\<open>.vscode\<close> is not awaited in the source; it is
  modelled as done at the point of the call.
\<close>

definition deleteUnnecessary :: "env \<Rightarrow> 'r options \<Rightarrow> path \<Rightarrow> state \<Rightarrow> outcome" where
  "deleteUnnecessary env opts projectPath =
     steps
       (del env [projectPath @ [''CHANGELOG.md''],
             projectPath @ [''README.md''],
             projectPath @ [''package-lock.json''],
             projectPath @ [''bin''],
             projectPath @ [''src'', ''cli'']]
        # (if \<not> vscode opts then [del env [projectPath @ [''.vscode'']]] else []))"

text \<open>Lines 163 to 178.\<close>

definition createReadme :: "'r options \<Rightarrow> path \<Rightarrow> state \<Rightarrow> outcome" where
  "createReadme opts projectPath =
     steps
       [renameSync (projectPath @ [''README-starter.md'']) (projectPath @ [''README.md'']),
        replaceInFile (projectPath @ [''README.md'']) ''[package-name]'' (projectName opts),
        replaceInFile (projectPath @ [''README.md'']) ''[description]'' (description opts)]"

text \<open>Lines 180 to 197.\<close>

definition pruneDom :: "env \<Rightarrow> 'r options \<Rightarrow> path \<Rightarrow> state \<Rightarrow> outcome" where
  "pruneDom env opts projectPath =
     (if \<not> domDefinitions opts
      then steps
        [replaceInFile (projectPath @ [''tsconfig.json'']) lib_with_dom lib_without_dom,
         replaceInFile (projectPath @ [''src'', ''index.ts'']) export_hash [],
         del env [projectPath @ [''src'', ''lib'', ''hash.ts''],
              projectPath @ [''src'', ''lib'', ''hash.spec.ts'']]]
      else Done)"

text \<open>Lines 199 to 223.\<close>

definition pruneNode :: "env \<Rightarrow> 'r options \<Rightarrow> path \<Rightarrow> state \<Rightarrow> outcome" where
  "pruneNode env opts projectPath =
     (if \<not> nodeDefinitions opts
      then steps
        [replaceInFile (projectPath @ [''tsconfig.json'']) types_with_node types_without_node,
         replaceInFile (projectPath @ [''src'', ''index.ts'']) export_async [],
         replaceInFile (projectPath @ [''src'', ''index.ts'']) export_hash [],
         del env [projectPath @ [''src'', ''lib'', ''hash.ts''],
              projectPath @ [''src'', ''lib'', ''hash.spec.ts''],
              projectPath @ [''src'', ''lib'', ''async.ts''],
              projectPath @ [''src'', ''lib'', ''async.spec.ts'']]]
      else Done)"

text \<open>Lines 225 to 227.\<close>

definition runInstall :: "'r options \<Rightarrow> 'r tasks \<Rightarrow> path \<Rightarrow> state \<Rightarrow> outcome" where
  "runInstall opts tasks projectPath =
     (if install opts
      then task (Install (runner opts) projectPath)
             (installTask tasks (runner opts) projectPath)
      else Done)"

text \<open>Lines 229 to 237.\<close>

definition gitIsConfigured :: "env \<Rightarrow> 'r options \<Rightarrow> bool" where
  "gitIsConfigured env opts =
     (if fullName opts \<noteq> placeholder_name env \<and> email opts \<noteq> placeholder_email env
      then True else False)"

definition gitInit ::
  "env \<Rightarrow> 'r options \<Rightarrow> 'r tasks \<Rightarrow> string \<Rightarrow> path \<Rightarrow> state \<Rightarrow> outcome" where
  "gitInit env opts tasks commitHash projectPath =
     (if gitIsConfigured env opts
      then task (InitialCommit commitHash projectPath (fullName opts))
             (initialCommit tasks commitHash projectPath (fullName opts))
      else Done)"

text \<open>
  The whole run, lines 39 to 239. Console output and the spinners do not act on the
  disk and are left out.
\<close>

definition typescriptStarter :: "env \<Rightarrow> 'r options \<Rightarrow> 'r tasks \<Rightarrow> state \<Rightarrow> outcome" where
  "typescriptStarter env opts tasks s =
     (let s0 = emit CloneRepo s in
      case cloneRepo tasks (repoInfo opts) (workingDirectory opts) (projectName opts) (files s) of
        (Inl e, d) \<Rightarrow> Failed e (s0\<lparr>files := d\<rparr>)
      | (Inr (commitHash, gitHistoryDir), d) \<Rightarrow>
          (let projectPath = workingDirectory opts @ [projectName opts] in
           steps
             [del env [gitHistoryDir],
              updatePackageJson env opts projectPath,
              updateGitignore opts projectPath,
              deleteUnnecessary env opts projectPath,
              createReadme opts projectPath,
              pruneDom env opts projectPath,
              pruneNode env opts projectPath,
              runInstall opts tasks projectPath,
              gitInit env opts tasks commitHash projectPath]
             (s0\<lparr>files := d\<rparr>)))"

section \<open>Vocabulary of the properties\<close>

text \<open>Does the file at a path hold the given piece of text?\<close>

definition file_contains :: "disk \<Rightarrow> path \<Rightarrow> string \<Rightarrow> bool" where
  "file_contains d file p = (case d file of None \<Rightarrow> False | Some c \<Rightarrow> contains c p)"

text \<open>
  The operations of lines 163 to 178 on \<^verbatim>\<open>README.md\<close>, and those of the two pruning
  blocks (lines 180 to 223).
\<close>

fun readmeEvent :: "path \<Rightarrow> event \<Rightarrow> bool" where
  "readmeEvent projectPath (Rename old new) = (new = projectPath @ [''README.md''])"
| "readmeEvent projectPath (Replace file from to) = (file = projectPath @ [''README.md''])"
| "readmeEvent projectPath e = False"

fun pruningEvent :: "path \<Rightarrow> event \<Rightarrow> bool" where
  "pruningEvent projectPath (Replace file from to) =
     (file = projectPath @ [''tsconfig.json''] \<or> file = projectPath @ [''src'', ''index.ts''])"
| "pruningEvent projectPath (Del paths) =
     (paths = [projectPath @ [''src'', ''lib'', ''hash.ts''],
               projectPath @ [''src'', ''lib'', ''hash.spec.ts'']]
      \<or> paths = [projectPath @ [''src'', ''lib'', ''hash.ts''],
                 projectPath @ [''src'', ''lib'', ''hash.spec.ts''],
                 projectPath @ [''src'', ''lib'', ''async.ts''],
                 projectPath @ [''src'', ''lib'', ''async.spec.ts'']])"
| "pruningEvent projectPath e = False"

fun commitEvent :: "event \<Rightarrow> bool" where
  "commitEvent (InitialCommit commitHash projectPath name) = True"
| "commitEvent e = False"

fun writeEvent :: "event \<Rightarrow> bool" where
  "writeEvent (WriteFile file) = True"
| "writeEvent e = False"

text \<open>
  \<open>all_before P Q l\<close>: in the log \<open>l\<close>, every operation with \<open>P\<close> comes before every
  operation with \<open>Q\<close>, that is, no \<open>Q\<close> is followed by a \<open>P\<close>.
\<close>

fun all_before :: "(event \<Rightarrow> bool) \<Rightarrow> (event \<Rightarrow> bool) \<Rightarrow> event list \<Rightarrow> bool" where
  "all_before P Q [] = True"
| "all_before P Q (e # es) =
     ((if Q e then list_all (\<lambda>x. \<not> P x) es else True) \<and> all_before P Q es)"

text \<open>
  \<open>emits_only P f\<close>: whatever the state and whether or not it fails, \<open>f\<close> appends to
  the log only operations with \<open>P\<close>.
\<close>

definition emits_only :: "(event \<Rightarrow> bool) \<Rightarrow> (state \<Rightarrow> outcome) \<Rightarrow> bool" where
  "emits_only P f = (\<forall>s. \<exists>es. log (state_of (f s)) = log s @ es \<and> list_all P es)"


section \<open>A sample project\<close>

definition demo_options :: "unit options" where
  "demo_options =
     \<lparr>description = ''A demo'', domDefinitions = False, email = ''me@example.com'',
      fullName = ''Ada'', githubUsername = ''ada'', install = False,
      nodeDefinitions = True, projectName = ''demo'', repoInfo = (), runner = Npm,
      vscode = False, workingDirectory = [''work'']\<rparr>"

definition demo_manifest :: jsval where
  "demo_manifest =
     Obj [(''name'', Str ''typescript-starter''),
          (''version'', Str ''3.2.1''),
          (''bin'', Obj [(''typescript-starter'', Str ''bin/typescript-starter'')]),
          (''keywords'', Arr [Str ''cli'']),
          (''scripts'',
             Obj [(''build'', Str ''run-p build:*''),
                  (''reset-hard'', Str ''git clean -dfx && git reset --hard && npm i'')]),
          (''dependencies'', Obj [(''chalk'', Str ''^4.1.0'')]),
          (''devDependencies'',
             Obj [(''ava'', Str ''^3.12.1''),
                  (''cspell'', Str ''^4.1.0''),
                  (''typescript'', Str ''^4.0.2'')]),
          (''NOTE'', Str ''scaffold only'')]"

definition demo_manifest_text :: string where
  "demo_manifest_text = ''{ the text of the sample manifest }''"

text \<open>
  Its matcher is pinned for the one kind of special component the examples use: a
  parenthesised group stands for its content, so \<^verbatim>\<open>my (work)\<close> matches \<^verbatim>\<open>my work\<close>.
\<close>

definition demo_env :: env where
  "demo_env =
     \<lparr>json_parse = (\<lambda>t. if t = demo_manifest_text then Some demo_manifest else None),
      json_layout = (\<lambda>v. ''{ the text of the derived manifest }''),
      glob_component = (\<lambda>pattern name. filter (\<lambda>c. c \<notin> set ''()'') pattern = name),
      placeholder_name = ''YOUR_NAME'',
      placeholder_email = ''YOUR_EMAIL''\<rparr>"

definition demo_files :: "(path \<times> string) list" where
  "demo_files =
     [([''work'', ''demo'', ''.git'', ''HEAD''], ''ref: refs/heads/master''),
      ([''work'', ''demo'', ''package.json''], demo_manifest_text),
      ([''work'', ''demo'', ''.gitignore''], ''build\<newline>diff\<newline>yarn.lock\<newline>''),
      ([''work'', ''demo'', ''README-starter.md''], ''# [package-name]\<newline>[description]\<newline>''),
      ([''work'', ''demo'', ''tsconfig.json''],
         ''{ '' @ lib_with_dom @ '', '' @ types_with_node @ '' }''),
      ([''work'', ''demo'', ''src'', ''index.ts''], export_async @ export_hash),
      ([''work'', ''demo'', ''src'', ''lib'', ''hash.ts''], ''sha256''),
      ([''work'', ''demo'', ''src'', ''lib'', ''hash.spec.ts''], ''test sha256''),
      ([''work'', ''demo'', ''src'', ''lib'', ''async.ts''], ''asyncABC''),
      ([''work'', ''demo'', ''src'', ''lib'', ''async.spec.ts''], ''test asyncABC'')]"

definition demo_tasks :: "unit tasks" where
  "demo_tasks =
     \<lparr>cloneRepo = (\<lambda>r dir name d. (Inr (''abc123'', dir @ [name, ''.git'']), map_of demo_files)),
      installTask = (\<lambda>r p d. (Inr (), d)),
      initialCommit = (\<lambda>h p n d. (Inr (), d))\<rparr>"

definition demo_start :: state where
  "demo_start = \<lparr>files = Map.empty, log = []\<rparr>"

definition demo_state :: state where
  "demo_state = \<lparr>files = map_of demo_files, log = []\<rparr>"

text \<open>The sample project with both export lines written twice in the entry module.\<close>

definition repeated_exports :: state where
  "repeated_exports =
     \<lparr>files = (map_of demo_files)
        ([''work'', ''demo'', ''src'', ''index.ts'']
           \<mapsto> export_async @ export_hash @ export_async @ export_hash),
      log = []\<rparr>"






section \<open>Properties of the derived manifest\<close>

subsection \<open>Serialization and property lookup\<close>

lemma serialize_json: "is_json v \<Longrightarrow> stable_json v \<Longrightarrow> serialize v = v"
proof (induction v)
  case (Num n)
  then show ?case by (cases n) simp_all
next
  case (Arr xs)
  then have "\<forall>x\<in>set xs. serialize x = x \<and> x \<noteq> Undefined"
    by (auto simp: list_all_iff)
  then have "map (\<lambda>v. if v = Undefined then Null else v) (map serialize xs) = xs"
    by (induction xs) auto
  then show ?case by simp
next
  case (Obj kvs)
  then have *: "\<forall>kv\<in>set kvs. serialize (snd kv) = snd kv \<and> snd kv \<noteq> Undefined"
    by (auto simp: list_all_iff pred_prod_beta snds.simps)
  then have "filter (\<lambda>kv. snd kv \<noteq> Undefined) (map (map_prod (\<lambda>k. k) serialize) kvs) = kvs"
    by (induction kvs) (auto simp: map_prod_def split: prod.splits)
  then show ?case by simp
qed simp_all

lemma serialize_eq_Undefined: "serialize v = Undefined \<longleftrightarrow> v = Undefined"
  by (cases v) (simp_all split: number.splits)

lemma map_of_serialized:
  "distinct (map fst kvs) \<Longrightarrow>
   map_of (filter (\<lambda>kv. snd kv \<noteq> Undefined) (map (map_prod (\<lambda>k. k) serialize) kvs)) k =
     (case map_of kvs k of
        None \<Rightarrow> None
      | Some v \<Rightarrow> if v = Undefined then None else Some (serialize v))"
proof (induction kvs)
  case Nil
  then show ?case by simp
next
  case (Cons kv kvs)
  obtain a b where kv: "kv = (a, b)" by (cases kv)
  let ?ser = "\<lambda>l. filter (\<lambda>kv. snd kv \<noteq> Undefined) (map (map_prod (\<lambda>k. k) serialize) l)"
  have d: "distinct (map fst kvs)" using Cons.prems by simp
  note IH = Cons.IH [OF d]
  show ?case
  proof (cases "k = a")
    case True
    have "a \<notin> fst ` set kvs" using Cons.prems kv by simp
    then have "a \<notin> fst ` set (?ser kvs)" by (auto simp: image_iff)
    then have "map_of (?ser kvs) a = None" by (simp add: map_of_eq_None_iff)
    then show ?thesis using True kv by (simp add: serialize_eq_Undefined)
  next
    case False
    then show ?thesis using IH kv by (simp add: serialize_eq_Undefined)
  qed
qed

lemma own_serialize_Obj:
  "distinct (map fst kvs) \<Longrightarrow>
   map_of (own_props (serialize (Obj kvs))) k =
     (case map_of kvs k of
        None \<Rightarrow> None
      | Some v \<Rightarrow> if v = Undefined then None else Some (serialize v))"
  by (simp add: map_of_serialized)

lemma is_json_own_props:
  "is_json v \<Longrightarrow> map_of (own_props v) k = Some w \<Longrightarrow> is_json w"
proof (cases v)
  case (Obj kvs)
  assume "is_json v" "map_of (own_props v) k = Some w"
  then have "(k, w) \<in> set kvs" "list_all (pred_prod (\<lambda>k. True) is_json) kvs"
    using Obj by (auto dest: map_of_SomeD)
  then show ?thesis by (auto simp: list_all_iff)
next
  case (Arr xs)
  assume "is_json v" "map_of (own_props v) k = Some w"
  then have "w \<in> set xs" "list_all is_json xs"
    using Arr by (auto dest!: map_of_SomeD set_zip_rightD simp: indexed_def)
  then show ?thesis by (auto simp: list_all_iff)
next
  case (Str s)
  assume "is_json v" "map_of (own_props v) k = Some w"
  then have "w \<in> set (map (\<lambda>c. Str [c]) s)"
    using Str by (auto dest!: map_of_SomeD set_zip_rightD simp: indexed_def)
  then show ?thesis by auto
qed auto

lemma get_prop_own:
  "get_prop src k = Inr v \<Longrightarrow> k \<noteq> ''length'' \<Longrightarrow>
   v = (case map_of (own_props src) k of None \<Rightarrow> Undefined | Some w \<Rightarrow> w)"
  by (cases src) auto

subsection \<open>Array indices are not names\<close>

lemma show_nat_digits: "set (show_nat n) \<subseteq> set ''0123456789''"
proof (induction n rule: show_nat.induct)
  case (1 n)
  have d: "''0123456789'' ! m \<in> set ''0123456789''" if "m < 10" for m :: nat
    by (rule nth_mem) (use that in simp)
  show ?case
  proof (cases "n < 10")
    case True
    then show ?thesis using d [of n] by (subst show_nat.simps) simp
  next
    case False
    have "n mod 10 < 10" by simp
    then have "''0123456789'' ! (n mod 10) \<in> set ''0123456789''" by (rule d)
    then show ?thesis using False 1
      by (subst show_nat.simps) auto
  qed
qed

lemma show_nat_nonempty: "show_nat n \<noteq> []"
  by (subst show_nat.simps) simp

lemma not_index:
  assumes "k \<noteq> []" "hd k \<notin> set ''0123456789''"
  shows "map_of (indexed xs) k = None"
proof -
  have "k \<notin> set (map show_nat [0..<length xs])"
  proof
    assume "k \<in> set (map show_nat [0..<length xs])"
    then obtain n where "k = show_nat n" by auto
    then have "hd k \<in> set (show_nat n)" using show_nat_nonempty by simp
    then show False using show_nat_digits assms(2) by blast
  qed
  then show ?thesis
    unfolding indexed_def by (auto simp: map_of_eq_None_iff dest: set_zip_leftD)
qed

lemma get_prop_devDependencies_Obj:
  assumes "get_prop pkg ''devDependencies'' = Inr src" "src \<noteq> Undefined"
  shows "\<exists>kvs. pkg = Obj kvs"
proof (cases pkg)
  case (Arr xs)
  then show ?thesis using assms by (simp add: not_index)
next
  case (Str s)
  then show ?thesis using assms by (simp add: not_index)
qed (use assms in auto)

subsection \<open>The object that newPkg builds\<close>

lemma distinct_sets: "distinct (map fst obj) \<Longrightarrow> distinct (map fst (sets kvs obj))"
  unfolding sets_def by (induction kvs arbitrary: obj) (simp_all add: distinct_update)

lemma map_of_sets:
  "map_of (sets kvs obj) k =
     (case map_of (rev kvs) k of None \<Rightarrow> map_of obj k | Some v \<Rightarrow> Some v)"
  unfolding sets_def
  by (induction kvs arbitrary: obj) (auto simp: update_conv' split: option.splits)

lemma filterAllBut_from_distinct:
  "filterAllBut_from from acc keep = Inr r \<Longrightarrow> distinct (map fst acc) \<Longrightarrow> distinct (map fst r)"
  by (induction keep arbitrary: acc) (auto split: sum.splits simp: distinct_update)

lemma filterAllBut_from_other:
  "filterAllBut_from from acc keep = Inr r \<Longrightarrow> k \<notin> set keep \<Longrightarrow> map_of r k = map_of acc k"
  by (induction keep arbitrary: acc) (auto split: sum.splits simp: update_conv')

lemma filterAllBut_from_kept:
  "filterAllBut_from from acc keep = Inr r \<Longrightarrow> k \<in> set keep \<Longrightarrow>
   \<exists>v. get_prop from k = Inr v \<and> map_of r k = Some v"
proof (induction keep arbitrary: acc)
  case Nil
  then show ?case by simp
next
  case (Cons m rest)
  from Cons.prems(1) obtain v where v: "get_prop from m = Inr v"
    and r: "filterAllBut_from from (AList.update m v acc) rest = Inr r"
    by (auto split: sum.splits)
  show ?case
  proof (cases "k \<in> set rest")
    case True
    then show ?thesis using Cons.IH [OF r] by simp
  next
    case False
    then have "k = m" using Cons.prems(2) by simp
    moreover have "map_of r k = map_of (AList.update m v acc) k"
      using filterAllBut_from_other [OF r False] .
    ultimately show ?thesis using v by (simp add: update_conv')
  qed
qed

lemma filterAllBut_keptDevDeps_defined:
  "filterAllBut keptDevDeps src = Inr d \<Longrightarrow> src \<noteq> Undefined \<and> src \<noteq> Null"
  by (auto simp: filterAllBut_def keptDevDeps_def)

lemma newPkg_Inr:
  assumes "newPkg opts pkg = Inr r"
  obtains scr deps src devDeps pkg_ava where
    "scripts opts pkg = Inr scr"
    "(if nodeDefinitions opts
      then (case get_prop pkg ''dependencies'' of
              Inl e \<Rightarrow> Inl e
            | Inr pkg_deps \<Rightarrow> filterAllBut nodeKeptDeps pkg_deps)
      else Inr []) = Inr deps"
    "get_prop pkg ''devDependencies'' = Inr src"
    "filterAllBut keptDevDeps src = Inr devDeps"
    "get_prop pkg ''ava'' = Inr pkg_ava"
    "r = AList.delete ''NOTE_2'' (AList.delete ''NOTE'' (AList.delete ''bin''
            (sets
              [(''dependencies'', Obj deps),
               (''description'', Str (description opts)),
               (''devDependencies'', Obj devDeps),
               (''keywords'', Arr []),
               (''name'', Str (projectName opts)),
               (''repository'',
                  Str (''https://github.com/'' @ githubUsername opts @ ''/'' @ projectName opts)),
               (''scripts'', Obj scr),
               (''version'', Str ''1.0.0''),
               (''ava'',
                  Obj (sets
                    [(''files'', Arr [Str ''!build/module/**'']),
                     (''ignoredByWatcher'', Undefined)]
                    (own_props pkg_ava)))]
              (own_props pkg))))"
  using assms unfolding newPkg_def by (auto split: sum.splits)

lemma newPkg_lookup:
  assumes "newPkg opts pkg = Inr r"
  shows "map_of r ''name'' = Some (Str (projectName opts))"
    and "map_of r ''version'' = Some (Str ''1.0.0'')"
    and "map_of r ''keywords'' = Some (Arr [])"
    and "map_of r ''description'' = Some (Str (description opts))"
    and "map_of r ''repository'' =
           Some (Str (''https://github.com/'' @ githubUsername opts @ ''/'' @ projectName opts))"
    and "map_of r ''bin'' = None"
    and "map_of r ''NOTE'' = None"
    and "map_of r ''NOTE_2'' = None"
  using assms
  by (auto elim!: newPkg_Inr simp: delete_conv' map_of_sets)

lemma newPkg_manifest_is_object:
  assumes "newPkg opts pkg = Inr r"
  shows "\<exists>kvs. pkg = Obj kvs"
  using assms
  by (elim newPkg_Inr) (blast dest: filterAllBut_keptDevDeps_defined
      intro: get_prop_devDependencies_Obj)

lemma newPkg_distinct:
  assumes "is_json pkg" "newPkg opts pkg = Inr r"
  shows "distinct (map fst r)"
proof -
  obtain kvs where "pkg = Obj kvs" using newPkg_manifest_is_object [OF assms(2)] by blast
  then have "distinct (map fst (own_props pkg))" using assms(1) by simp
  then show ?thesis using assms(2)
    by (elim newPkg_Inr) (simp add: distinct_delete distinct_sets)
qed

text \<open>
  The derivation returns exactly for the manifests that are objects with a
  \<^verbatim>\<open>devDependencies\<close> other than \<^verbatim>\<open>null\<close>; for every other manifest a property read
  throws a TypeError.
\<close>

lemma get_prop_defined:
  "src \<noteq> Undefined \<Longrightarrow> src \<noteq> Null \<Longrightarrow> \<exists>v. get_prop src k = Inr v"
  by (cases src) simp_all

lemma filterAllBut_from_returns:
  "src \<noteq> Undefined \<Longrightarrow> src \<noteq> Null \<Longrightarrow> \<exists>r. filterAllBut_from src acc keep = Inr r"
proof (induction keep arbitrary: acc)
  case Nil
  then show ?case by simp
next
  case (Cons m rest)
  from get_prop_defined [OF Cons.prems] obtain v where "get_prop src m = Inr v" by blast
  then show ?case using Cons by simp
qed

lemma newPkg_returns_iff:
  "(\<exists>new. newPkg opts pkg = Inr new) \<longleftrightarrow>
   (\<exists>kvs src. pkg = Obj kvs \<and> map_of kvs ''devDependencies'' = Some src \<and>
      src \<noteq> Undefined \<and> src \<noteq> Null)"
proof
  assume "\<exists>new. newPkg opts pkg = Inr new"
  then obtain new where n: "newPkg opts pkg = Inr new" by blast
  obtain kvs where pkg: "pkg = Obj kvs" using newPkg_manifest_is_object [OF n] by blast
  from n obtain src kept where
    "get_prop pkg ''devDependencies'' = Inr src" "filterAllBut keptDevDeps src = Inr kept"
    by (elim newPkg_Inr)
  then show "\<exists>kvs src. pkg = Obj kvs \<and> map_of kvs ''devDependencies'' = Some src \<and>
      src \<noteq> Undefined \<and> src \<noteq> Null"
    using pkg filterAllBut_keptDevDeps_defined [of src kept]
    by (auto split: option.splits)
next
  assume "\<exists>kvs src. pkg = Obj kvs \<and> map_of kvs ''devDependencies'' = Some src \<and>
      src \<noteq> Undefined \<and> src \<noteq> Null"
  then obtain kvs src where pkg: "pkg = Obj kvs" and
    src: "map_of kvs ''devDependencies'' = Some src" "src \<noteq> Undefined" "src \<noteq> Null"
    by blast
  obtain kept where "filterAllBut keptDevDeps src = Inr kept"
    using filterAllBut_from_returns [OF src(2,3)] unfolding filterAllBut_def by blast
  then show "\<exists>new. newPkg opts pkg = Inr new"
    using pkg src(1)
    by (simp add: newPkg_def scripts_def filterAllBut_def nodeKeptDeps_def)
qed

text \<open>The sample manifest, derived.\<close>

lemma demo_newPkg:
  "newPkg demo_options demo_manifest =
     Inr [(''name'', Str ''demo''),
          (''version'', Str ''1.0.0''),
          (''keywords'', Arr []),
          (''scripts'',
             Obj [(''build'', Str ''run-p build:*''),
                  (''reset-hard'', Str ''git clean -dfx && git reset --hard && npm i''),
                  (''version'', Str (version_script ''demo''))]),
          (''dependencies'', Obj []),
          (''devDependencies'',
             Obj [(''@ava/typescript'', Undefined),
                  (''@istanbuljs/nyc-config-typescript'', Undefined),
                  (''@typescript-eslint/eslint-plugin'', Undefined),
                  (''@typescript-eslint/parser'', Undefined),
                  (''ava'', Str ''^3.12.1''),
                  (''eslint'', Undefined),
                  (''eslint-config-prettier'', Undefined),
                  (''eslint-plugin-eslint-comments'', Undefined),
                  (''eslint-plugin-import'', Undefined),
                  (''gh-pages'', Undefined),
                  (''npm-run-all'', Undefined),
                  (''nyc'', Undefined),
                  (''open-cli'', Undefined),
                  (''prettier'', Undefined),
                  (''standard-version'', Undefined),
                  (''trash-cli'', Undefined),
                  (''ts-node'', Undefined),
                  (''typedoc'', Undefined),
                  (''typescript'', Str ''^4.0.2'')]),
          (''description'', Str ''A demo''),
          (''repository'', Str ''https://github.com/ada/demo''),
          (''ava'', Obj [(''files'', Arr [Str ''!build/module/**'']), (''ignoredByWatcher'', Undefined)])]"
  by code_simp

lemma demo_is_json: "is_json demo_manifest"
  by code_simp

subsection \<open>Identity fields and scaffold-only keys\<close>

text \<open>
  Claim C6. For every parsed manifest and every configuration for which the derivation
  returns, the derived manifest, in memory and as serialized, has \<^verbatim>\<open>description\<close> and
  \<^verbatim>\<open>name\<close> from the configuration, \<^verbatim>\<open>repository\<close> equal to
  \<^verbatim>\<open>https://github.com/<githubUsername>/<projectName>\<close>, \<^verbatim>\<open>version\<close> equal to
  \<^verbatim>\<open>1.0.0\<close> and \<^verbatim>\<open>keywords\<close> equal to the empty array, and has none of the keys
  \<^verbatim>\<open>bin\<close>, \<^verbatim>\<open>NOTE\<close> and \<^verbatim>\<open>NOTE_2\<close>.
\<close>

theorem C6_identity_fields:
  assumes "is_json pkg" and "newPkg opts pkg = Inr new"
  shows "\<forall>m \<in> {map_of new, map_of (own_props (serialize (Obj new)))}.
           m ''description'' = Some (Str (description opts)) \<and>
           m ''name'' = Some (Str (projectName opts)) \<and>
           m ''repository'' =
             Some (Str (''https://github.com/'' @ githubUsername opts @ ''/'' @ projectName opts)) \<and>
           m ''version'' = Some (Str ''1.0.0'') \<and>
           m ''keywords'' = Some (Arr []) \<and>
           m ''bin'' = None \<and> m ''NOTE'' = None \<and> m ''NOTE_2'' = None"
proof -
  have d: "distinct (map fst new)" using newPkg_distinct [OF assms] .
  show ?thesis
    using newPkg_lookup [OF assms(2)]
    by (simp add: own_serialize_Obj [OF d] del: serialize.simps) simp
qed

text \<open>The theorem at the sample manifest.\<close>

theorem C6_identity_fields_witness:
  "is_json demo_manifest \<and>
   (\<exists>new. newPkg demo_options demo_manifest = Inr new \<and>
      (\<forall>m \<in> {map_of new, map_of (own_props (serialize (Obj new)))}.
           m ''description'' = Some (Str (description demo_options)) \<and>
           m ''name'' = Some (Str (projectName demo_options)) \<and>
           m ''repository'' =
             Some (Str (''https://github.com/'' @ githubUsername demo_options @ ''/''
                          @ projectName demo_options)) \<and>
           m ''version'' = Some (Str ''1.0.0'') \<and>
           m ''keywords'' = Some (Arr []) \<and>
           m ''bin'' = None \<and> m ''NOTE'' = None \<and> m ''NOTE_2'' = None))"
  by (intro conjI demo_is_json, rule exI, rule conjI, rule demo_newPkg)
    (rule C6_identity_fields [OF demo_is_json demo_newPkg])

subsection \<open>Scripts\<close>

text \<open>
  The claim that \<^verbatim>\<open>reset-hard\<close> is among the derived scripts only under Yarn fails on
  the sample manifest: its scripts already have a \<^verbatim>\<open>reset-hard\<close> entry, the runner
  is npm, and the derived scripts keep that entry.
\<close>

theorem C7_reset_hard_counterexample:
  "runner demo_options = Npm \<and>
   map_of (own_props (field (newPkg demo_options demo_manifest) ''scripts'')) ''reset-hard''
     = Some (Str ''git clean -dfx && git reset --hard && npm i'')"
  by (simp add: demo_newPkg field_def) (simp add: demo_options_def)

text \<open>
  Claim C7, amended. Whenever the derivation returns, the derived scripts are the
  inherited ones (the own properties of the manifest's \<^verbatim>\<open>scripts\<close>) except for two
  keys: \<^verbatim>\<open>version\<close> is always set to \<open>version_script projectName\<close>, and
  \<^verbatim>\<open>reset-hard\<close> is set to the Yarn command when the runner is Yarn and is left as
  inherited (present or absent) when it is not.
\<close>

theorem C7_scripts:
  assumes "newPkg opts pkg = Inr new"
  shows "\<exists>inherited scr.
           get_prop pkg ''scripts'' = Inr inherited \<and>
           map_of new ''scripts'' = Some (Obj scr) \<and>
           map_of scr ''version'' = Some (Str (version_script (projectName opts))) \<and>
           map_of scr ''reset-hard'' =
             (if runner opts = Yarn then Some (Str reset_hard_yarn)
              else map_of (own_props inherited) ''reset-hard'') \<and>
           (\<forall>k. k \<noteq> ''version'' \<and> k \<noteq> ''reset-hard'' \<longrightarrow>
                map_of scr k = map_of (own_props inherited) k)"
proof -
  from assms obtain scr where
    scr: "scripts opts pkg = Inr scr" and
    new: "map_of new ''scripts'' = Some (Obj scr)"
    by (elim newPkg_Inr) (auto simp: delete_conv' map_of_sets)
  from scr obtain inherited where
    inh: "get_prop pkg ''scripts'' = Inr inherited" and
    eq: "scr = (let with_version =
                     AList.update ''version'' (Str (version_script (projectName opts)))
                       (own_props inherited)
               in if runner opts = Yarn
                  then AList.update ''reset-hard'' (Str reset_hard_yarn) with_version
                  else with_version)"
    unfolding scripts_def by (auto split: sum.splits)
  show ?thesis
    using inh new by (auto simp: eq Let_def update_conv')
qed

text \<open>The theorem at the sample manifest.\<close>

theorem C7_scripts_witness:
  "\<exists>new. newPkg demo_options demo_manifest = Inr new \<and>
     (\<exists>inherited scr.
           get_prop demo_manifest ''scripts'' = Inr inherited \<and>
           map_of new ''scripts'' = Some (Obj scr) \<and>
           map_of scr ''version'' = Some (Str (version_script (projectName demo_options))) \<and>
           map_of scr ''reset-hard'' =
             (if runner demo_options = Yarn then Some (Str reset_hard_yarn)
              else map_of (own_props inherited) ''reset-hard'') \<and>
           (\<forall>k. k \<noteq> ''version'' \<and> k \<noteq> ''reset-hard'' \<longrightarrow>
                map_of scr k = map_of (own_props inherited) k))"
  by (rule exI, rule conjI, rule demo_newPkg) (rule C7_scripts [OF demo_newPkg])

subsection \<open>Runtime dependencies\<close>

text \<open>
  Claim C9. Whenever the derivation returns for a parsed manifest, the derived
  \<^verbatim>\<open>dependencies\<close> is the empty object, in memory and as serialized, and the derivation
  with the flag \<open>nodeDefinitions\<close> flipped returns the very same manifest: the flag has
  no effect on the derived manifest.
\<close>

theorem C9_dependencies_empty:
  assumes "is_json pkg" and "newPkg opts pkg = Inr new"
  shows "map_of new ''dependencies'' = Some (Obj []) \<and>
         map_of (own_props (serialize (Obj new))) ''dependencies'' = Some (Obj []) \<and>
         newPkg (opts\<lparr>nodeDefinitions := \<not> nodeDefinitions opts\<rparr>) pkg = Inr new"
proof -
  have d: "distinct (map fst new)" using newPkg_distinct [OF assms] .
  obtain kvs where pkg: "pkg = Obj kvs"
    using newPkg_manifest_is_object [OF assms(2)] by blast
  have e: "filterAllBut nodeKeptDeps v = Inr []" for v
    by (simp add: filterAllBut_def nodeKeptDeps_def)
  have deps: "(if nodeDefinitions o'
            then (case get_prop pkg ''dependencies'' of
                    Inl e \<Rightarrow> Inl e
                  | Inr pkg_deps \<Rightarrow> filterAllBut nodeKeptDeps pkg_deps)
            else Inr []) = Inr []" for o' :: "'a options"
    by (simp add: pkg e)
  have mem: "map_of new ''dependencies'' = Some (Obj [])"
    using assms(2) deps [of opts] by (elim newPkg_Inr) (simp add: delete_conv' map_of_sets)
  have ser: "map_of (own_props (serialize (Obj new))) ''dependencies'' = Some (Obj [])"
    using mem by (simp add: own_serialize_Obj [OF d] del: serialize.simps) simp
  have "newPkg (opts\<lparr>nodeDefinitions := \<not> nodeDefinitions opts\<rparr>) pkg = newPkg opts pkg"
    unfolding newPkg_def deps by (simp add: scripts_def split: sum.splits)
  then show ?thesis using mem ser assms(2) by simp
qed

text \<open>The theorem at the sample manifest.\<close>

theorem C9_dependencies_empty_witness:
  "is_json demo_manifest \<and>
   (\<exists>new. newPkg demo_options demo_manifest = Inr new \<and>
      map_of new ''dependencies'' = Some (Obj []) \<and>
      map_of (own_props (serialize (Obj new))) ''dependencies'' = Some (Obj []) \<and>
      newPkg (demo_options\<lparr>nodeDefinitions := \<not> nodeDefinitions demo_options\<rparr>) demo_manifest
        = Inr new)"
  by (intro conjI demo_is_json, rule exI, rule conjI, rule demo_newPkg)
    (rule C9_dependencies_empty [OF demo_is_json demo_newPkg])

section \<open>Glob patterns\<close>

text \<open>
  A pattern without special characters selects what lies at or below the path it spells.
  Whatever the matcher does with special components, a pattern in which a plain
  component occurs more often than in a path does not select that path.
\<close>

lemma plain_not_globstar: "plain c \<Longrightarrow> c \<noteq> ''**''"
  by (auto simp: plain_def glob_special_def)


lemma selects_iff:
  "selects env p q \<longleftrightarrow> (\<exists>n\<le>length q. glob_path env p (take n q))"
  by (auto simp: selects_def list_ex_iff less_Suc_eq_le simp del: upt_Suc)


lemma literal_append [simp]: "literal (p @ q) \<longleftrightarrow> literal p \<and> literal q"
  by (simp add: literal_def)

lemma glob_path_count:
  "glob_path env P S \<Longrightarrow> plain c \<Longrightarrow> count_list P c \<le> count_list S c"
proof (induction env P S rule: glob_path.induct)
  case (1 env f)
  then show ?case by simp
next
  case (2 env p ps)
  then show ?case using plain_not_globstar [of c] by auto
next
  case (3 env p ps x xs)
  show ?case
  proof (cases "p = ''**''")
    case True
    then have pc: "p \<noteq> c" using plain_not_globstar [OF "3.prems"(2)] by auto
    from "3.prems"(1) True consider "glob_path env ps (x # xs)" | "glob_path env (p # ps) xs"
      by auto
    then show ?thesis
    proof cases
      case 1
      then have "count_list ps c \<le> count_list (x # xs) c"
        using "3.IH"(1) [OF True] "3.prems"(2) by simp
      then show ?thesis using pc by simp
    next
      case 2
      then have "count_list (p # ps) c \<le> count_list xs c"
        using "3.IH"(2) [OF True] "3.prems"(2) by simp
      then show ?thesis by simp
    qed
  next
    case False
    then have m: "if plain p then p = x else glob_component env p x"
      and r: "glob_path env ps xs"
      using "3.prems"(1) by auto
    have le: "count_list ps c \<le> count_list xs c"
      using "3.IH"(3) [OF False r "3.prems"(2)] .
    show ?thesis
    proof (cases "p = c")
      case True
      then have "x = c" using m "3.prems"(2) by simp
      then show ?thesis using True le by simp
    next
      case False
      then show ?thesis using le by simp
    qed
  qed
qed

lemma count_list_take: "count_list (take n q) c \<le> count_list q c"
proof -
  have "count_list q c = count_list (take n q) c + count_list (drop n q) c"
    by (metis append_take_drop_id count_list_append)
  then show ?thesis by simp
qed

lemma not_selected:
  assumes "plain c" and "count_list q c < count_list pattern c"
  shows "\<not> selects env pattern q"
proof
  assume "selects env pattern q"
  then obtain n where "glob_path env pattern (take n q)"
    by (auto simp: selects_iff)
  then have "count_list pattern c \<le> count_list (take n q) c"
    using assms(1) by (rule glob_path_count)
  then show False using assms(2) count_list_take [of n q c] by simp
qed

lemma plain_names [simp]:
  "plain ''hash.ts''" "plain ''hash.spec.ts''" "plain ''async.ts''" "plain ''async.spec.ts''"
  "plain ''src''" "plain ''lib''" "plain ''index.ts''" "plain ''tsconfig.json''"
  "plain ''package.json''" "plain ''README.md''" "plain ''README-starter.md''"
  "plain ''CHANGELOG.md''" "plain ''package-lock.json''" "plain ''bin''" "plain ''cli''"
  "plain ''.vscode''" "plain ''.gitignore''"
  by (simp_all add: plain_def glob_special_def)

section \<open>Properties of the run\<close>

subsection \<open>Text replacement\<close>



lemma js_replace_absent: "\<not> contains s p \<Longrightarrow> js_replace p to s = s"
  by (simp add: contains_def js_replace_def)





lemma getSubstitution_lib [simp]: "getSubstitution m a b lib_without_dom = lib_without_dom"
  by (simp add: lib_without_dom_def)

lemma getSubstitution_types [simp]:
  "getSubstitution m a b types_without_node = types_without_node"
  by (simp add: types_without_node_def)





subsection \<open>Sequences of operations and their logs\<close>

lemma steps_Done_Cons:
  "steps (f # fs) s = Done s' \<longleftrightarrow> (\<exists>s1. f s = Done s1 \<and> steps fs s1 = Done s')"
  by (cases "f s") auto

lemma steps_two_Done:
  "steps [f, g] s = Done s' \<longleftrightarrow> (\<exists>s1. f s = Done s1 \<and> g s1 = Done s')"
  by (cases "f s"; cases "g (state_of (f s))") auto

lemma steps_append:
  "steps (fs @ gs) s =
     (case steps fs s of Done s' \<Rightarrow> steps gs s' | Failed e s' \<Rightarrow> Failed e s')"
  by (induction fs arbitrary: s) (auto split: outcome.splits)

lemma Done_state_of: "failure out = None \<Longrightarrow> out = Done (state_of out)"
  by (cases out) simp_all

lemma replaceInFile_Done:
  "replaceInFile file from to s = Done s' \<longleftrightarrow>
     (\<exists>c. files s file = Some c \<and>
          s' = (emit (Replace file from to) s)\<lparr>files := (files s)(file \<mapsto> js_replace from to c)\<rparr>)"
  by (auto simp: replaceInFile_def Let_def split: option.splits)

lemma files_emit [simp]: "files (emit e s) = files s"
  by (simp add: emit_def)

lemma log_emit [simp]: "log (emit e s) = log s @ [e]"
  by (simp add: emit_def)

lemma emits_onlyI:
  "(\<And>s. \<exists>es. log (state_of (f s)) = log s @ es \<and> list_all P es) \<Longrightarrow> emits_only P f"
  by (simp add: emits_only_def)

lemma emits_only_Done: "emits_only P Done"
  by (rule emits_onlyI) simp

lemma emits_only_steps:
  "(\<And>f. f \<in> set fs \<Longrightarrow> emits_only P f) \<Longrightarrow> emits_only P (steps fs)"
proof (induction fs)
  case Nil
  then show ?case by (simp add: emits_only_def)
next
  case (Cons f fs)
  have f: "emits_only P f" and r: "emits_only P (steps fs)"
    using Cons by simp_all
  show ?case
  proof (rule emits_onlyI)
    fix s
    from f obtain es where es: "log (state_of (f s)) = log s @ es" "list_all P es"
      unfolding emits_only_def by blast
    show "\<exists>es. log (state_of (steps (f # fs) s)) = log s @ es \<and> list_all P es"
    proof (cases "f s")
      case (Done s1)
      from r obtain es' where
        es': "log (state_of (steps fs s1)) = log s1 @ es'" "list_all P es'"
        unfolding emits_only_def by blast
      have "log (state_of (steps (f # fs) s)) = log s @ (es @ es')"
        using Done es es' by simp
      moreover have "list_all P (es @ es')" using es es' by simp
      ultimately show ?thesis by blast
    next
      case (Failed e s1)
      then show ?thesis using es by auto
    qed
  qed
qed

lemma emits_only_log:
  "emits_only P f \<Longrightarrow> list_all P (log s) \<Longrightarrow> list_all P (log (state_of (f s)))"
  unfolding emits_only_def by (metis list_all_append)

lemma emits_only_replaceInFile:
  "P (Replace file from to) \<Longrightarrow> emits_only P (replaceInFile file from to)"
  by (rule emits_onlyI) (auto simp: replaceInFile_def Let_def split: option.splits)

lemma emits_only_del: "P (Del paths) \<Longrightarrow> emits_only P (del env paths)"
  by (rule emits_onlyI) (auto simp: del_def)

lemma emits_only_renameSync: "P (Rename old new) \<Longrightarrow> emits_only P (renameSync old new)"
  by (rule emits_onlyI) (auto simp: renameSync_def Let_def split: option.splits)

lemma emits_only_task: "P e \<Longrightarrow> emits_only P (task e run)"
  by (rule emits_onlyI) (auto simp: task_def Let_def split: prod.splits sum.splits)

lemma emits_only_updatePackageJson:
  assumes "P (ReadFile (projectPath @ [''package.json'']))"
    and "P (WriteFile (projectPath @ [''package.json'']))"
  shows "emits_only P (updatePackageJson env opts projectPath)"
proof (rule emits_onlyI)
  fix s
  show "\<exists>es. log (state_of (updatePackageJson env opts projectPath s)) = log s @ es
          \<and> list_all P es"
    using assms
    by (auto simp: updatePackageJson_def readPackageJson_def writePackageJson_def Let_def
        split: option.splits sum.splits)
qed

lemma emits_only_updateGitignore:
  assumes "\<And>from to. P (Replace (projectPath @ [''.gitignore'']) from to)"
  shows "emits_only P (updateGitignore opts projectPath)"
  unfolding updateGitignore_def
  by (rule emits_only_steps) (auto intro: emits_only_replaceInFile assms split: if_splits)

lemma emits_only_deleteUnnecessary:
  assumes "P (Del [projectPath @ [''CHANGELOG.md''],
             projectPath @ [''README.md''],
             projectPath @ [''package-lock.json''],
             projectPath @ [''bin''],
             projectPath @ [''src'', ''cli'']])"
    and "P (Del [projectPath @ [''.vscode'']])"
  shows "emits_only P (deleteUnnecessary env opts projectPath)"
  unfolding deleteUnnecessary_def
  by (rule emits_only_steps) (auto intro: emits_only_del assms split: if_splits)

lemma emits_only_createReadme:
  assumes "\<And>old. P (Rename old (projectPath @ [''README.md'']))"
    and "\<And>from to. P (Replace (projectPath @ [''README.md'']) from to)"
  shows "emits_only P (createReadme opts projectPath)"
  unfolding createReadme_def
  by (rule emits_only_steps) (auto intro: emits_only_replaceInFile emits_only_renameSync assms)

lemma emits_only_pruneDom:
  assumes "\<And>e. pruningEvent projectPath e \<Longrightarrow> P e"
  shows "emits_only P (pruneDom env opts projectPath)"
  unfolding pruneDom_def
  by (auto intro!: emits_only_steps emits_only_Done emits_only_replaceInFile
      emits_only_del assms)

lemma emits_only_pruneNode:
  assumes "\<And>e. pruningEvent projectPath e \<Longrightarrow> P e"
  shows "emits_only P (pruneNode env opts projectPath)"
  unfolding pruneNode_def
  by (auto intro!: emits_only_steps emits_only_Done emits_only_replaceInFile
      emits_only_del assms)

lemma emits_only_runInstall:
  assumes "\<And>r p. P (Install r p)"
  shows "emits_only P (runInstall opts tasks projectPath)"
  unfolding runInstall_def
  by (auto intro: emits_only_Done emits_only_task assms)

lemma emits_only_gitInit:
  assumes "\<And>h p n. P (InitialCommit h p n)"
  shows "emits_only P (gitInit env opts tasks commitHash projectPath)"
  unfolding gitInit_def
  by (auto intro: emits_only_Done emits_only_task assms)

text \<open>\<open>all_before\<close> by positions in the log.\<close>

lemma all_before_nth:
  "all_before P Q l \<longleftrightarrow> (\<forall>i<length l. \<forall>j<i. Q (l ! j) \<longrightarrow> \<not> P (l ! i))"
proof (induction l)
  case Nil
  then show ?case by simp
next
  case (Cons e es)
  have "(\<forall>i<length (e # es). \<forall>j<i. Q ((e # es) ! j) \<longrightarrow> \<not> P ((e # es) ! i)) \<longleftrightarrow>
        ((Q e \<longrightarrow> (\<forall>i<length es. \<not> P (es ! i))) \<and>
         (\<forall>i<length es. \<forall>j<i. Q (es ! j) \<longrightarrow> \<not> P (es ! i)))"
    (is "?L \<longleftrightarrow> ?A \<and> ?B")
  proof
    assume L: ?L
    have ?A
    proof (intro impI allI)
      fix i assume "Q e" "i < length es"
      then show "\<not> P (es ! i)" using L [rule_format, of "Suc i" 0] by simp
    qed
    moreover have ?B
    proof (intro impI allI)
      fix i j assume "i < length es" "j < i" "Q (es ! j)"
      then show "\<not> P (es ! i)" using L [rule_format, of "Suc i" "Suc j"] by simp
    qed
    ultimately show "?A \<and> ?B" ..
  next
    assume AB: "?A \<and> ?B"
    show ?L
    proof (intro impI allI)
      fix i j assume i: "i < length (e # es)" and j: "j < i" and q: "Q ((e # es) ! j)"
      from j obtain i' where i': "i = Suc i'" by (cases i) auto
      show "\<not> P ((e # es) ! i)"
      proof (cases j)
        case 0
        then show ?thesis using AB q i i' by simp
      next
        case (Suc j')
        then show ?thesis using AB q i i' j by simp
      qed
    qed
  qed
  then show ?case using Cons by (simp add: list_all_length)
qed

lemma all_before_none: "list_all (\<lambda>e. \<not> Q e) es \<Longrightarrow> all_before P Q es"
  by (induction es) auto

lemma all_before_append:
  "list_all (\<lambda>e. \<not> Q e) xs \<Longrightarrow> list_all (\<lambda>e. \<not> P e) ys \<Longrightarrow> all_before P Q (xs @ ys)"
proof (induction xs)
  case Nil
  then show ?case by (induction ys) auto
next
  case (Cons x xs)
  then show ?case by simp
qed

lemma not_list_ex: "list_all (\<lambda>e. \<not> P e) xs \<longleftrightarrow> \<not> list_ex P xs"
  by (induction xs) auto

lemma pruning_not_readme: "pruningEvent projectPath e \<Longrightarrow> \<not> readmeEvent projectPath e"
  by (cases e) auto

lemma setup_not_pruning:
  "emits_only (\<lambda>e. \<not> pruningEvent projectPath e)
     (steps [del env [gitHistoryDir],
             updatePackageJson env opts projectPath,
             updateGitignore opts projectPath,
             deleteUnnecessary env opts projectPath,
             createReadme opts projectPath])"
  by (rule emits_only_steps)
    (auto intro!: emits_only_del emits_only_updatePackageJson emits_only_updateGitignore
      emits_only_deleteUnnecessary emits_only_createReadme)

lemma rest_not_readme:
  "emits_only (\<lambda>e. \<not> readmeEvent projectPath e)
     (steps [pruneDom env opts projectPath,
             pruneNode env opts projectPath,
             runInstall opts tasks projectPath,
             gitInit env opts tasks commitHash projectPath])"
  by (rule emits_only_steps)
    (auto intro!: emits_only_pruneDom emits_only_pruneNode emits_only_runInstall
      emits_only_gitInit dest: pruning_not_readme)

lemma before_commit_no_commit:
  "emits_only (\<lambda>e. \<not> commitEvent e)
     (steps [del env [gitHistoryDir],
             updatePackageJson env opts projectPath,
             updateGitignore opts projectPath,
             deleteUnnecessary env opts projectPath,
             createReadme opts projectPath,
             pruneDom env opts projectPath,
             pruneNode env opts projectPath,
             runInstall opts tasks projectPath])"
proof -
  have p: "\<not> commitEvent e" if "pruningEvent projectPath e" for e
    using that by (cases e) auto
  show ?thesis
    by (rule emits_only_steps)
      (auto intro!: emits_only_del emits_only_updatePackageJson emits_only_updateGitignore
        emits_only_deleteUnnecessary emits_only_createReadme emits_only_pruneDom
        emits_only_pruneNode emits_only_runInstall dest: p)
qed

lemma typescriptStarter_cases:
  obtains (clone_failed) e d where
      "cloneRepo tasks (repoInfo opts) (workingDirectory opts) (projectName opts) (files s)
         = (Inl e, d)"
      "typescriptStarter env opts tasks s = Failed e ((emit CloneRepo s)\<lparr>files := d\<rparr>)"
  | (cloned) commitHash gitHistoryDir d where
      "cloneRepo tasks (repoInfo opts) (workingDirectory opts) (projectName opts) (files s)
         = (Inr (commitHash, gitHistoryDir), d)"
      "typescriptStarter env opts tasks s =
         steps
           ([del env [gitHistoryDir],
             updatePackageJson env opts (workingDirectory opts @ [projectName opts]),
             updateGitignore opts (workingDirectory opts @ [projectName opts]),
             deleteUnnecessary env opts (workingDirectory opts @ [projectName opts]),
             createReadme opts (workingDirectory opts @ [projectName opts])]
            @ [pruneDom env opts (workingDirectory opts @ [projectName opts]),
               pruneNode env opts (workingDirectory opts @ [projectName opts]),
               runInstall opts tasks (workingDirectory opts @ [projectName opts]),
               gitInit env opts tasks commitHash (workingDirectory opts @ [projectName opts])])
           ((emit CloneRepo s)\<lparr>files := d\<rparr>)"
proof (cases "cloneRepo tasks (repoInfo opts) (workingDirectory opts) (projectName opts) (files s)")
  case (Pair r d)
  show ?thesis
  proof (cases r)
    case (Inl e)
    then show ?thesis using Pair clone_failed [of e d]
      by (simp add: typescriptStarter_def Let_def)
  next
    case (Inr hg)
    obtain h g where "hg = (h, g)" by (cases hg)
    then show ?thesis using Pair Inr cloned [of h g d]
      by (simp add: typescriptStarter_def Let_def)
  qed
qed

subsection \<open>Order of the README substitution and the pruning\<close>

text \<open>
  The claim that both pruning blocks are done before the placeholders of the README are
  substituted fails on the sample run, where \<open>domDefinitions\<close> is off: the substitution
  of \<^verbatim>\<open>[description]\<close> is the operation at index 9 of the log and the first pruning
  operation, the rewrite of \<^verbatim>\<open>tsconfig.json\<close>, is the one at index 10.
\<close>

theorem C2_pruning_first_counterexample:
  "\<not> all_before (pruningEvent [''work'', ''demo'']) (readmeEvent [''work'', ''demo''])
       (log (state_of (typescriptStarter demo_env demo_options demo_tasks demo_start))) \<and>
   log (state_of (typescriptStarter demo_env demo_options demo_tasks demo_start)) ! 9
     = Replace [''work'', ''demo'', ''README.md''] ''[description]'' ''A demo'' \<and>
   log (state_of (typescriptStarter demo_env demo_options demo_tasks demo_start)) ! 10
     = Replace [''work'', ''demo'', ''tsconfig.json''] lib_with_dom lib_without_dom"
  by code_simp

text \<open>
  Claim C2, amended. In every run, from any disk and with any collaborators, whether it
  completes or fails, every operation on \<^verbatim>\<open>README.md\<close> of lines 163 to 178 (the rename
  and the two substitutions) is issued before every operation of the two pruning blocks
  of lines 180 to 223.
\<close>

theorem C2_readme_before_pruning:
  "all_before (readmeEvent (workingDirectory opts @ [projectName opts]))
     (pruningEvent (workingDirectory opts @ [projectName opts]))
     (log (state_of (typescriptStarter env opts tasks \<lparr>files = d, log = []\<rparr>)))"
proof (cases rule: typescriptStarter_cases [of tasks opts "\<lparr>files = d, log = []\<rparr>" env])
  case (clone_failed e d')
  then show ?thesis by simp
next
  case (cloned commitHash gitHistoryDir d')
  let ?pp = "workingDirectory opts @ [projectName opts]"
  let ?s0 = "(emit CloneRepo \<lparr>files = d, log = []\<rparr>)\<lparr>files := d'\<rparr>"
  let ?A = "steps [del env [gitHistoryDir], updatePackageJson env opts ?pp,
                   updateGitignore opts ?pp, deleteUnnecessary env opts ?pp,
                   createReadme opts ?pp]"
  let ?B = "steps [pruneDom env opts ?pp, pruneNode env opts ?pp, runInstall opts tasks ?pp,
                   gitInit env opts tasks commitHash ?pp]"
  have l0: "log ?s0 = [CloneRepo]" by simp
  have "emits_only (\<lambda>e. \<not> pruningEvent ?pp e) ?A" by (rule setup_not_pruning)
  then obtain xs where
    xs: "log (state_of (?A ?s0)) = log ?s0 @ xs" "list_all (\<lambda>e. \<not> pruningEvent ?pp e) xs"
    unfolding emits_only_def by blast
  have np: "list_all (\<lambda>e. \<not> pruningEvent ?pp e) (log (state_of (?A ?s0)))"
    using xs l0 by simp
  have split: "typescriptStarter env opts tasks \<lparr>files = d, log = []\<rparr> =
      (case ?A ?s0 of Done s' \<Rightarrow> ?B s' | Failed e s' \<Rightarrow> Failed e s')"
    using cloned(2) by (simp only: steps_append)
  show ?thesis
  proof (cases "?A ?s0")
    case (Failed e s1)
    then have "typescriptStarter env opts tasks \<lparr>files = d, log = []\<rparr> = Failed e s1"
      using split by (simp only: outcome.case)
    then show ?thesis using np Failed by (simp only: state_of.simps all_before_none)
  next
    case (Done s1)
    then have run: "typescriptStarter env opts tasks \<lparr>files = d, log = []\<rparr> = ?B s1"
      using split by (simp only: outcome.case)
    have "emits_only (\<lambda>e. \<not> readmeEvent ?pp e) ?B" by (rule rest_not_readme)
    then obtain ys where
      ys: "log (state_of (?B s1)) = log s1 @ ys" "list_all (\<lambda>e. \<not> readmeEvent ?pp e) ys"
      unfolding emits_only_def by blast
    have "list_all (\<lambda>e. \<not> pruningEvent ?pp e) (log s1)"
      using np Done by (simp only: state_of.simps)
    then have "all_before (readmeEvent ?pp) (pruningEvent ?pp) (log s1 @ ys)"
      using ys(2) by (rule all_before_append)
    then show ?thesis using run ys(1) by (simp only:)
  qed
qed

text \<open>The theorem at the sample run.\<close>

theorem C2_readme_before_pruning_witness:
  "all_before (readmeEvent (workingDirectory demo_options @ [projectName demo_options]))
     (pruningEvent (workingDirectory demo_options @ [projectName demo_options]))
     (log (state_of (typescriptStarter demo_env demo_options demo_tasks
        \<lparr>files = Map.empty, log = []\<rparr>)))"
  by (rule C2_readme_before_pruning)

subsection \<open>The initial commit\<close>

lemma gitInit_commit:
  "list_ex commitEvent (log (state_of (gitInit env opts tasks commitHash projectPath s)))
     = (list_ex commitEvent (log s) \<or>
        (fullName opts \<noteq> placeholder_name env \<and> email opts \<noteq> placeholder_email env))"
  by (auto simp: gitInit_def gitIsConfigured_def task_def Let_def
      split: prod.splits sum.splits)

text \<open>
  Claim C5. The last step (lines 229 to 237) issues the initial commit if and only if
  \<open>fullName\<close> differs from the placeholder name and \<open>email\<close> differs from the
  placeholder email. For the whole run: a run that issues the commit has both customized,
  and a run that completes issues the commit exactly when both are customized. So with
  only one of the two customized no commit is issued.
\<close>

theorem C5_commit_gate:
  "(list_ex commitEvent (log (state_of (gitInit env opts tasks commitHash projectPath s)))
      = (list_ex commitEvent (log s) \<or>
         (fullName opts \<noteq> placeholder_name env \<and> email opts \<noteq> placeholder_email env))) \<and>
   (list_ex commitEvent
      (log (state_of (typescriptStarter env opts tasks \<lparr>files = d, log = []\<rparr>)))
      \<longrightarrow> fullName opts \<noteq> placeholder_name env \<and> email opts \<noteq> placeholder_email env) \<and>
   (failure (typescriptStarter env opts tasks \<lparr>files = d, log = []\<rparr>) = None
      \<longrightarrow> list_ex commitEvent
            (log (state_of (typescriptStarter env opts tasks \<lparr>files = d, log = []\<rparr>)))
          = (fullName opts \<noteq> placeholder_name env \<and> email opts \<noteq> placeholder_email env))"
proof -
  let ?both = "fullName opts \<noteq> placeholder_name env \<and> email opts \<noteq> placeholder_email env"
  let ?run = "typescriptStarter env opts tasks \<lparr>files = d, log = []\<rparr>"
  have run: "list_ex commitEvent (log (state_of ?run)) \<longrightarrow> ?both"
    and "failure ?run = None \<longrightarrow> list_ex commitEvent (log (state_of ?run)) = ?both"
  proof (atomize (full), cases rule: typescriptStarter_cases [of tasks opts "\<lparr>files = d, log = []\<rparr>" env])
    case (clone_failed e d')
    then show "(list_ex commitEvent (log (state_of ?run)) \<longrightarrow> ?both) \<and>
      (failure ?run = None \<longrightarrow> list_ex commitEvent (log (state_of ?run)) = ?both)"
      by simp
  next
    case (cloned commitHash gitHistoryDir d')
    let ?pp = "workingDirectory opts @ [projectName opts]"
    let ?s0 = "(emit CloneRepo \<lparr>files = d, log = []\<rparr>)\<lparr>files := d'\<rparr>"
    let ?A = "steps [del env [gitHistoryDir], updatePackageJson env opts ?pp,
                     updateGitignore opts ?pp, deleteUnnecessary env opts ?pp,
                     createReadme opts ?pp, pruneDom env opts ?pp, pruneNode env opts ?pp,
                     runInstall opts tasks ?pp]"
    have split: "?run =
        (case ?A ?s0 of
           Done s' \<Rightarrow> steps [gitInit env opts tasks commitHash ?pp] s'
         | Failed e s' \<Rightarrow> Failed e s')"
      using cloned(2) steps_append [of "[del env [gitHistoryDir], updatePackageJson env opts ?pp,
                     updateGitignore opts ?pp, deleteUnnecessary env opts ?pp,
                     createReadme opts ?pp, pruneDom env opts ?pp, pruneNode env opts ?pp,
                     runInstall opts tasks ?pp]" "[gitInit env opts tasks commitHash ?pp]" ?s0]
      by (simp only: append.simps)
    have "list_all (\<lambda>e. \<not> commitEvent e) (log ?s0)" by simp
    then have "list_all (\<lambda>e. \<not> commitEvent e) (log (state_of (?A ?s0)))"
      by (rule emits_only_log [OF before_commit_no_commit])
    then have nc: "\<not> list_ex commitEvent (log (state_of (?A ?s0)))"
      using not_list_ex by blast
    show "(list_ex commitEvent (log (state_of ?run)) \<longrightarrow> ?both) \<and>
      (failure ?run = None \<longrightarrow> list_ex commitEvent (log (state_of ?run)) = ?both)"
    proof (cases "?A ?s0")
      case (Failed e s1)
      then have "?run = Failed e s1" using split by (simp only: outcome.case)
      then show ?thesis using nc Failed by simp
    next
      case (Done s1)
      then have r: "?run = steps [gitInit env opts tasks commitHash ?pp] s1"
        using split by (simp only: outcome.case)
      have s: "state_of (steps [f] s1) = state_of (f s1)" for f
        by (cases "f s1") simp_all
      have "\<not> list_ex commitEvent (log s1)" using nc Done by simp
      then have "list_ex commitEvent (log (state_of ?run)) = ?both"
        unfolding r s gitInit_commit by simp
      then show ?thesis by simp
    qed
  qed
  then show ?thesis using gitInit_commit [of env opts tasks commitHash projectPath s]
    by blast
qed

text \<open>
  The theorem at the sample run with the name customized and the email left as the
  placeholder: no commit is issued.
\<close>

theorem C5_commit_gate_witness:
  "\<not> list_ex commitEvent
       (log (state_of (typescriptStarter demo_env
          (demo_options\<lparr>email := placeholder_email demo_env\<rparr>) demo_tasks
          \<lparr>files = Map.empty, log = []\<rparr>))) \<and>
   fullName (demo_options\<lparr>email := placeholder_email demo_env\<rparr>) \<noteq> placeholder_name demo_env"
proof -
  have "fullName (demo_options\<lparr>email := placeholder_email demo_env\<rparr>) \<noteq> placeholder_name demo_env"
    by (simp add: demo_options_def demo_env_def)
  moreover have "\<not> (email (demo_options\<lparr>email := placeholder_email demo_env\<rparr>)
      \<noteq> placeholder_email demo_env)" by simp
  ultimately show ?thesis
    using C5_commit_gate [of demo_env "demo_options\<lparr>email := placeholder_email demo_env\<rparr>"
        demo_tasks "''abc123''" "[''work'', ''demo'']" demo_start Map.empty]
    by blast
qed

subsection \<open>Reading and writing the manifest\<close>

text \<open>
  When the manifest parses and the derivation returns, the file is replaced by the layout
  of the serialized derived manifest and a newline.
\<close>

lemma updatePackageJson_Done:
  assumes "files s (projectPath @ [''package.json'']) = Some text"
    and "json_parse env text = Some pkg"
    and "newPkg opts pkg = Inr new"
  shows "\<exists>s'. updatePackageJson env opts projectPath s = Done s' \<and>
           files s' = (files s)(projectPath @ [''package.json'']
             \<mapsto> json_layout env (serialize (Obj new)) @ [CHR ''\<newline>''])"
  using assms
  by (simp add: updatePackageJson_def readPackageJson_def writePackageJson_def Let_def
      del: serialize.simps)

lemma updatePackageJson_unparseable:
  assumes "files s (projectPath @ [''package.json'']) = Some text"
    and "json_parse env text = None"
  shows "updatePackageJson env opts projectPath s
           = Failed SyntaxError (emit (ReadFile (projectPath @ [''package.json''])) s)"
  using assms by (simp add: updatePackageJson_def readPackageJson_def Let_def)

text \<open>
  Claim C8. If, after the clone and the removal of the history directory, the text of
  \<^verbatim>\<open>package.json\<close> does not parse, the run fails with the SyntaxError of
  \<^verbatim>\<open>JSON.parse\<close>; the disk is as the clone and that removal left it, with
  \<^verbatim>\<open>package.json\<close> holding the same text, and the operations issued are the clone, the
  removal and the read: no file is written.
\<close>

theorem C8_unparseable_manifest:
  assumes "cloneRepo tasks (repoInfo opts) (workingDirectory opts) (projectName opts) (files s)
             = (Inr (commitHash, gitHistoryDir), d)"
    and "\<not> selects env gitHistoryDir ((workingDirectory opts @ [projectName opts]) @ [''package.json''])"
    and "d ((workingDirectory opts @ [projectName opts]) @ [''package.json'']) = Some text"
    and "json_parse env text = None"
  shows "\<exists>s'. typescriptStarter env opts tasks s = Failed SyntaxError s' \<and>
           files s' ((workingDirectory opts @ [projectName opts]) @ [''package.json''])
             = Some text \<and>
           files s' = (\<lambda>q. if selects env gitHistoryDir q then None else d q) \<and>
           log s' = log s @ [CloneRepo, Del [gitHistoryDir],
                      ReadFile ((workingDirectory opts @ [projectName opts]) @ [''package.json''])] \<and>
           \<not> list_ex writeEvent (drop (length (log s)) (log s'))"
proof -
  let ?pp = "workingDirectory opts @ [projectName opts]"
  let ?s0 = "(emit CloneRepo s)\<lparr>files := d\<rparr>"
  let ?s1 = "(emit (Del [gitHistoryDir]) ?s0)
               \<lparr>files := (\<lambda>q. if selects env gitHistoryDir q then None else d q)\<rparr>"
  let ?s2 = "emit (ReadFile (?pp @ [''package.json''])) ?s1"
  have d1: "del env [gitHistoryDir] ?s0 = Done ?s1"
    by (simp add: del_def emit_def cong: if_cong)
  have "files ?s1 p = d p" if "\<not> selects env gitHistoryDir p" for p
    using that by simp
  from this [OF assms(2)] have f: "files ?s1 (?pp @ [''package.json'']) = Some text"
    using assms(3) by (simp only:)
  have u: "updatePackageJson env opts ?pp ?s1 = Failed SyntaxError ?s2"
    using f assms(4) by (rule updatePackageJson_unparseable)
  have run: "typescriptStarter env opts tasks s = Failed SyntaxError ?s2"
    using assms(1) d1 u by (simp add: typescriptStarter_def Let_def)
  have "files ?s2 (?pp @ [''package.json'']) = Some text"
    using f by (simp only: files_emit)
  moreover have "files ?s2 = (\<lambda>q. if selects env gitHistoryDir q then None else d q)"
    by simp
  moreover have "log ?s2 = log s @ [CloneRepo, Del [gitHistoryDir],
      ReadFile (?pp @ [''package.json''])]"
    by simp
  moreover have "\<not> list_ex writeEvent (drop (length (log s)) (log ?s2))"
    by simp
  ultimately show ?thesis using run by blast
qed

text \<open>The theorem at the sample project with a parser that rejects every text.\<close>

theorem C8_unparseable_manifest_witness:
  "json_parse (demo_env\<lparr>json_parse := (\<lambda>t. None)\<rparr>) demo_manifest_text = None \<and>
   (\<exists>s'. typescriptStarter (demo_env\<lparr>json_parse := (\<lambda>t. None)\<rparr>) demo_options demo_tasks
            demo_start = Failed SyntaxError s' \<and>
         files s' ((workingDirectory demo_options @ [projectName demo_options]) @ [''package.json''])
           = Some demo_manifest_text \<and>
         \<not> list_ex writeEvent (drop (length (log demo_start)) (log s')))"
proof -
  let ?env = "demo_env\<lparr>json_parse := (\<lambda>t. None)\<rparr>"
  have c: "cloneRepo demo_tasks (repoInfo demo_options) (workingDirectory demo_options)
             (projectName demo_options) (files demo_start)
           = (Inr (''abc123'', [''work'', ''demo'', ''.git'']), map_of demo_files)"
    by (simp add: demo_tasks_def demo_options_def)
  have p: "\<not> selects ?env [''work'', ''demo'', ''.git'']
             ((workingDirectory demo_options @ [projectName demo_options]) @ [''package.json''])"
    by code_simp
  have d: "map_of demo_files
             ((workingDirectory demo_options @ [projectName demo_options]) @ [''package.json''])
           = Some demo_manifest_text"
    by (simp add: demo_options_def demo_files_def)
  have n: "json_parse ?env demo_manifest_text = None" by simp
  from C8_unparseable_manifest [OF c p d n] n show ?thesis by blast
qed

subsection \<open>Development dependencies in the written manifest\<close>

text \<open>
  What the derivation does with one name of the allow-list, on the object in memory and
  on the tree that \<^verbatim>\<open>JSON.stringify\<close> writes. A value read from the source manifest is
  written as \<open>serialize\<close> gives it, which is the value itself when it is
  \<open>stable_json\<close>: \<^verbatim>\<open>JSON.parse\<close> reads \<^verbatim>\<open>1e400\<close> as \<^verbatim>\<open>Infinity\<close>, and that is
  written as \<^verbatim>\<open>null\<close>; it reads \<^verbatim>\<open>-0\<close> as the negative zero, and that is written as
  \<^verbatim>\<open>0\<close>.
\<close>

lemma newPkg_devDependencies:
  assumes "is_json pkg" and "newPkg opts pkg = Inr new" and "name \<in> set keptDevDeps"
  shows "\<exists>src kept.
           get_prop pkg ''devDependencies'' = Inr src \<and>
           map_of new ''devDependencies'' = Some (Obj kept) \<and>
           map_of (own_props (serialize (Obj new))) ''devDependencies''
             = Some (serialize (Obj kept)) \<and>
           (case map_of (own_props src) name of
              Some v \<Rightarrow>
                map_of kept name = Some v \<and>
                map_of (own_props (serialize (Obj kept))) name = Some (serialize v) \<and>
                (stable_json v \<longrightarrow> serialize v = v)
            | None \<Rightarrow>
                map_of kept name = Some Undefined \<and>
                map_of (own_props (serialize (Obj kept))) name = None)"
proof -
  from assms(2) obtain src kept where
    src: "get_prop pkg ''devDependencies'' = Inr src" and
    kept: "filterAllBut keptDevDeps src = Inr kept" and
    new: "map_of new ''devDependencies'' = Some (Obj kept)"
    by (elim newPkg_Inr) (auto simp: delete_conv' map_of_sets)
  have dnew: "distinct (map fst new)" using newPkg_distinct [OF assms(1,2)] .
  have dkept: "distinct (map fst kept)"
    using kept filterAllBut_from_distinct [of src "[]" keptDevDeps kept]
    by (simp add: filterAllBut_def)
  have ser: "map_of (own_props (serialize (Obj new))) ''devDependencies''
      = Some (serialize (Obj kept))"
    using new by (simp add: own_serialize_Obj [OF dnew] del: serialize.simps)
  obtain kvs where pkg: "pkg = Obj kvs"
    using newPkg_manifest_is_object [OF assms(2)] by blast
  have src_json: "src \<noteq> Undefined \<Longrightarrow> is_json src"
    using src assms(1) is_json_own_props [of pkg "''devDependencies''" src] pkg
    by (auto split: option.splits)
  have "src \<noteq> Undefined" using filterAllBut_keptDevDeps_defined [OF kept] by simp
  then have sj: "is_json src" by (rule src_json)
  from kept assms(3) obtain v where
    v: "get_prop src name = Inr v" and kv: "map_of kept name = Some v"
    using filterAllBut_from_kept [of src "[]" keptDevDeps kept name]
    by (auto simp: filterAllBut_def)
  have "name \<noteq> ''length''" using assms(3) by (auto simp: keptDevDeps_def)
  then have vv: "v = (case map_of (own_props src) name of None \<Rightarrow> Undefined | Some w \<Rightarrow> w)"
    using get_prop_own [OF v] by simp
  have "case map_of (own_props src) name of
          Some v \<Rightarrow>
            map_of kept name = Some v \<and>
            map_of (own_props (serialize (Obj kept))) name = Some (serialize v) \<and>
            (stable_json v \<longrightarrow> serialize v = v)
        | None \<Rightarrow>
            map_of kept name = Some Undefined \<and>
            map_of (own_props (serialize (Obj kept))) name = None"
  proof (cases "map_of (own_props src) name")
    case None
    then show ?thesis using vv kv by (simp add: map_of_serialized [OF dkept])
  next
    case (Some w)
    then have w: "is_json w" using is_json_own_props [OF sj] by blast
    then have "w \<noteq> Undefined" by auto
    moreover have "stable_json w \<longrightarrow> serialize w = w" using w by (simp add: serialize_json)
    ultimately show ?thesis using Some vv kv by (simp add: map_of_serialized [OF dkept])
  qed
  then show ?thesis using src new ser by blast
qed

lemma updatePackageJson_Done_iff:
  "updatePackageJson env opts projectPath s = Done s' \<longleftrightarrow>
     (\<exists>text pkg new.
        files s (projectPath @ [''package.json'']) = Some text \<and>
        json_parse env text = Some pkg \<and>
        newPkg opts pkg = Inr new \<and>
        s' = (emit (WriteFile (projectPath @ [''package.json'']))
               (emit (ReadFile (projectPath @ [''package.json''])) s))
             \<lparr>files := (files s)(projectPath @ [''package.json'']
                \<mapsto> json_layout env (serialize (Obj new)) @ [CHR ''\<newline>''])\<rparr>)"
  by (auto simp: updatePackageJson_def readPackageJson_def writePackageJson_def Let_def emit_def
      split: option.splits sum.splits simp del: serialize.simps)

text \<open>
  Claim C1. Let \<^verbatim>\<open>package.json\<close> hold a text that \<^verbatim>\<open>JSON.parse\<close> reads as the manifest
  \<open>pkg\<close>, let lines 50 to 127 complete, and take a name of the allow-list
  \<open>keptDevDeps\<close>. Then the derivation returned an object, and \<^verbatim>\<open>package.json\<close> now holds
  the text that \<^verbatim>\<open>JSON.stringify\<close> lays out for it, followed by a newline. If the name is
  a key of the source manifest's \<^verbatim>\<open>devDependencies\<close>, the derived \<^verbatim>\<open>devDependencies\<close>
  holds the name with the same value, and the written tree holds the name with that value
  as serialized, which is the value itself when it is \<open>stable_json\<close>. If the name is
  not a key there, the object in memory holds the name with the value \<^verbatim>\<open>undefined\<close>, and
  the written tree does not hold the name at all. (When the manifest has no
  \<^verbatim>\<open>devDependencies\<close> the derivation throws a TypeError and nothing is written, see
  \<open>newPkg_returns_iff\<close>.)
\<close>

theorem C1_devDependencies:
  assumes "is_json pkg"
    and "files s (projectPath @ [''package.json'']) = Some text"
    and "json_parse env text = Some pkg"
    and "updatePackageJson env opts projectPath s = Done s'"
    and "name \<in> set keptDevDeps"
  shows "\<exists>new src kept.
           newPkg opts pkg = Inr new \<and>
           files s' (projectPath @ [''package.json''])
             = Some (json_layout env (serialize (Obj new)) @ [CHR ''\<newline>'']) \<and>
           get_prop pkg ''devDependencies'' = Inr src \<and>
           map_of new ''devDependencies'' = Some (Obj kept) \<and>
           map_of (own_props (serialize (Obj new))) ''devDependencies''
             = Some (serialize (Obj kept)) \<and>
           (case map_of (own_props src) name of
              Some v \<Rightarrow>
                map_of kept name = Some v \<and>
                map_of (own_props (serialize (Obj kept))) name = Some (serialize v) \<and>
                (stable_json v \<longrightarrow> serialize v = v)
            | None \<Rightarrow>
                map_of kept name = Some Undefined \<and>
                map_of (own_props (serialize (Obj kept))) name = None)"
proof -
  from assms(2-4) obtain new where
    new: "newPkg opts pkg = Inr new" and
    s': "s' = (emit (WriteFile (projectPath @ [''package.json'']))
               (emit (ReadFile (projectPath @ [''package.json''])) s))
             \<lparr>files := (files s)(projectPath @ [''package.json'']
                \<mapsto> json_layout env (serialize (Obj new)) @ [CHR ''\<newline>''])\<rparr>"
    unfolding updatePackageJson_Done_iff by auto
  have w: "files s' (projectPath @ [''package.json''])
             = Some (json_layout env (serialize (Obj new)) @ [CHR ''\<newline>''])"
    unfolding s' by simp
  from newPkg_devDependencies [OF assms(1) new assms(5)] new w show ?thesis by blast
qed

text \<open>The theorem at the sample project and the name \<^verbatim>\<open>ava\<close>.\<close>

theorem C1_devDependencies_witness:
  "is_json demo_manifest \<and>
   files demo_state ([''work'', ''demo''] @ [''package.json'']) = Some demo_manifest_text \<and>
   json_parse demo_env demo_manifest_text = Some demo_manifest \<and>
   failure (updatePackageJson demo_env demo_options [''work'', ''demo''] demo_state) = None \<and>
   ''ava'' \<in> set keptDevDeps \<and>
   (\<exists>new src kept.
      newPkg demo_options demo_manifest = Inr new \<and>
      files (state_of (updatePackageJson demo_env demo_options [''work'', ''demo''] demo_state))
          ([''work'', ''demo''] @ [''package.json''])
        = Some (json_layout demo_env (serialize (Obj new)) @ [CHR ''\<newline>'']) \<and>
      get_prop demo_manifest ''devDependencies'' = Inr src \<and>
      map_of new ''devDependencies'' = Some (Obj kept) \<and>
      map_of (own_props (serialize (Obj new))) ''devDependencies''
        = Some (serialize (Obj kept)) \<and>
      (case map_of (own_props src) ''ava'' of
         Some v \<Rightarrow>
           map_of kept ''ava'' = Some v \<and>
           map_of (own_props (serialize (Obj kept))) ''ava'' = Some (serialize v) \<and>
           (stable_json v \<longrightarrow> serialize v = v)
       | None \<Rightarrow>
           map_of kept ''ava'' = Some Undefined \<and>
           map_of (own_props (serialize (Obj kept))) ''ava'' = None))"
proof -
  let ?run = "updatePackageJson demo_env demo_options [''work'', ''demo''] demo_state"
  have f: "files demo_state ([''work'', ''demo''] @ [''package.json'']) = Some demo_manifest_text"
    by (simp add: demo_state_def demo_files_def)
  have p: "json_parse demo_env demo_manifest_text = Some demo_manifest"
    by (simp add: demo_env_def)
  have ok: "failure ?run = None" by code_simp
  then have run: "?run = Done (state_of ?run)" by (rule Done_state_of)
  have k: "''ava'' \<in> set keptDevDeps" by (simp add: keptDevDeps_def)
  show ?thesis
    by (intro conjI demo_is_json f p ok k)
      (rule C1_devDependencies [OF demo_is_json f p run k])
qed

subsection \<open>The pruning blocks\<close>



lemma tail_not_selected:
  assumes "plain name" and "name \<notin> set tail"
  shows "\<not> selects env (projectPath @ [''src'', ''lib'', name]) (projectPath @ tail)"
proof (rule not_selected [OF assms(1)])
  have "count_list tail name = 0" using assms(2) by (simp add: count_list_0_iff)
  moreover have "0 < count_list [''src'', ''lib'', name] name" by simp
  ultimately show "count_list (projectPath @ tail) name
      < count_list (projectPath @ [''src'', ''lib'', name]) name"
    by (simp only: count_list_append)
qed

lemma modules_keep_tsconfig:
  assumes "name \<in> {''hash.ts'', ''hash.spec.ts'', ''async.ts'', ''async.spec.ts''}"
  shows "\<not> selects env (projectPath @ [''src'', ''lib'', name]) (projectPath @ [''tsconfig.json''])"
    and "\<not> selects env (projectPath @ [''src'', ''lib'', name]) (projectPath @ [''src'', ''index.ts''])"
proof -
  have p: "plain name" using assms by auto
  show "\<not> selects env (projectPath @ [''src'', ''lib'', name]) (projectPath @ [''tsconfig.json''])"
    by (rule tail_not_selected [OF p]) (use assms in auto)
  show "\<not> selects env (projectPath @ [''src'', ''lib'', name]) (projectPath @ [''src'', ''index.ts''])"
    by (rule tail_not_selected [OF p]) (use assms in auto)
qed




lemma pruneNode_Done:
  assumes "\<not> nodeDefinitions opts" and "pruneNode env opts projectPath s = Done s1"
  shows "\<exists>t i. files s (projectPath @ [''tsconfig.json'']) = Some t \<and>
           files s (projectPath @ [''src'', ''index.ts'']) = Some i \<and>
           files s1 =
             (\<lambda>q. if list_ex (\<lambda>p. selects env p q)
                        [projectPath @ [''src'', ''lib'', ''hash.ts''],
                         projectPath @ [''src'', ''lib'', ''hash.spec.ts''],
                         projectPath @ [''src'', ''lib'', ''async.ts''],
                         projectPath @ [''src'', ''lib'', ''async.spec.ts'']]
                   then None
                   else ((files s)
                     (projectPath @ [''tsconfig.json'']
                        \<mapsto> js_replace types_with_node types_without_node t,
                      projectPath @ [''src'', ''index.ts'']
                        \<mapsto> js_replace export_hash [] (js_replace export_async [] i))) q)"
  using assms
  by (auto simp: pruneNode_def steps_Done_Cons replaceInFile_Done del_def
      simp del: steps.simps(2) cong: if_cong)


lemma pruneNode_absent_noop:
  assumes "\<not> nodeDefinitions opts" and "pruneNode env opts projectPath s = Done s1"
  shows "\<exists>s2. pruneNode env opts projectPath s1 = Done s2 \<and>
           (\<forall>q. q \<noteq> projectPath @ [''tsconfig.json''] \<and>
                q \<noteq> projectPath @ [''src'', ''index.ts''] \<longrightarrow> files s2 q = files s1 q) \<and>
           (\<not> file_contains (files s1) (projectPath @ [''tsconfig.json'']) types_with_node \<and>
            \<not> file_contains (files s1) (projectPath @ [''src'', ''index.ts'']) export_async \<and>
            \<not> file_contains (files s1) (projectPath @ [''src'', ''index.ts'']) export_hash
            \<longrightarrow> files s2 = files s1)"
proof -
  let ?tsc = "projectPath @ [''tsconfig.json'']" and ?idx = "projectPath @ [''src'', ''index.ts'']"
  let ?gone = "\<lambda>q. list_ex (\<lambda>p. selects env p q)
                        [projectPath @ [''src'', ''lib'', ''hash.ts''],
                         projectPath @ [''src'', ''lib'', ''hash.spec.ts''],
                         projectPath @ [''src'', ''lib'', ''async.ts''],
                         projectPath @ [''src'', ''lib'', ''async.spec.ts'']]"
  from pruneNode_Done [OF assms] obtain t i where
    f1: "files s1 = (\<lambda>q. if ?gone q then None
                   else ((files s)
                     (?tsc \<mapsto> js_replace types_with_node types_without_node t,
                      ?idx \<mapsto> js_replace export_hash [] (js_replace export_async [] i))) q)"
    by blast
  have g: "files s1 q = None" if "?gone q" for q
    using that by (simp only: f1 if_P)
  obtain t1 where t1: "files s1 ?tsc = Some t1" by (simp add: f1 modules_keep_tsconfig)
  obtain i1 where i1: "files s1 ?idx = Some i1" by (simp add: f1 modules_keep_tsconfig)
  define s2 where "s2 = (emit (Del [projectPath @ [''src'', ''lib'', ''hash.ts''],
                         projectPath @ [''src'', ''lib'', ''hash.spec.ts''],
                         projectPath @ [''src'', ''lib'', ''async.ts''],
                         projectPath @ [''src'', ''lib'', ''async.spec.ts'']])
      (emit (Replace ?idx export_hash [])
        (emit (Replace ?idx export_async [])
          (emit (Replace ?tsc types_with_node types_without_node) s1))))
      \<lparr>files := (\<lambda>q. if ?gone q then None
                   else ((files s1)
                     (?tsc \<mapsto> js_replace types_with_node types_without_node t1,
                      ?idx \<mapsto> js_replace export_hash [] (js_replace export_async [] i1))) q)\<rparr>"
  have run: "pruneNode env opts projectPath s1 = Done s2"
    using assms(1) t1 i1
    by (simp add: pruneNode_def replaceInFile_def del_def Let_def s2_def emit_def cong: if_cong)
  have f2: "files s2 q = (if ?gone q then None
                   else ((files s1)
                     (?tsc \<mapsto> js_replace types_with_node types_without_node t1,
                      ?idx \<mapsto> js_replace export_hash [] (js_replace export_async [] i1))) q)"
    for q by (simp add: s2_def)
  have other: "files s2 q = files s1 q" if "q \<noteq> ?tsc" "q \<noteq> ?idx" for q
  proof (cases "?gone q")
    case True
    then show ?thesis using g [of q] by (simp only: f2 if_P)
  next
    case False
    then have "files s2 q = ((files s1)
                     (?tsc \<mapsto> js_replace types_with_node types_without_node t1,
                      ?idx \<mapsto> js_replace export_hash [] (js_replace export_async [] i1))) q"
      by (simp only: f2 if_False)
    then show ?thesis using that by simp
  qed
  have same: "files s2 = files s1"
    if "\<not> file_contains (files s1) ?tsc types_with_node"
      "\<not> file_contains (files s1) ?idx export_async"
      "\<not> file_contains (files s1) ?idx export_hash"
  proof
    fix q
    have a: "js_replace types_with_node types_without_node t1 = t1"
      using that(1) t1 by (simp add: file_contains_def js_replace_absent)
    have b: "js_replace export_hash [] (js_replace export_async [] i1) = i1"
      using that(2,3) i1 by (simp add: file_contains_def js_replace_absent)
    show "files s2 q = files s1 q"
    proof (cases "?gone q")
      case True
      then show ?thesis using g [of q] by (simp only: f2 if_P)
    next
      case False
      then show ?thesis using t1 i1 by (simp only: f2 if_False a b) auto
    qed
  qed
  show ?thesis using run other same by blast
qed

text \<open>
  The claim that pruning the node feature twice leaves the state that pruning it once
  leaves fails on the project \<open>repeated_exports\<close>: neither run fails, the first leaves
  one copy of each export line in the entry module, and the second removes those too.
\<close>

theorem C4_prune_node_twice_counterexample:
  "failure (pruneNode demo_env (demo_options\<lparr>nodeDefinitions := False\<rparr>) [''work'', ''demo'']
              repeated_exports) = None \<and>
   files (state_of (pruneNode demo_env (demo_options\<lparr>nodeDefinitions := False\<rparr>) [''work'', ''demo'']
                      repeated_exports))
     [''work'', ''demo'', ''src'', ''index.ts''] = Some (export_async @ export_hash) \<and>
   failure (steps [pruneNode demo_env (demo_options\<lparr>nodeDefinitions := False\<rparr>) [''work'', ''demo''],
                   pruneNode demo_env (demo_options\<lparr>nodeDefinitions := False\<rparr>) [''work'', ''demo'']]
              repeated_exports) = None \<and>
   files (state_of (steps [pruneNode demo_env (demo_options\<lparr>nodeDefinitions := False\<rparr>) [''work'', ''demo''],
                           pruneNode demo_env (demo_options\<lparr>nodeDefinitions := False\<rparr>) [''work'', ''demo'']]
                      repeated_exports))
     [''work'', ''demo'', ''src'', ''index.ts''] = Some []"
  by code_simp

text \<open>
  Claim C4, amended. If the node block completes on a state, it completes again on the
  state it left, and the second run changes no file but possibly \<^verbatim>\<open>tsconfig.json\<close> and
  the entry module. If after the first run \<^verbatim>\<open>tsconfig.json\<close> does not hold the
  fragment with \<^verbatim>\<open>node\<close> and the entry module holds neither export line, the second run
  leaves every file as the first run left it.
\<close>

theorem C4_prune_node_twice:
  assumes "pruneNode env opts projectPath s = Done s1"
  shows "\<exists>s2. steps [pruneNode env opts projectPath, pruneNode env opts projectPath] s = Done s2 \<and>
           (\<forall>q. q \<noteq> projectPath @ [''tsconfig.json''] \<and>
                q \<noteq> projectPath @ [''src'', ''index.ts''] \<longrightarrow> files s2 q = files s1 q) \<and>
           (\<not> file_contains (files s1) (projectPath @ [''tsconfig.json'']) types_with_node \<and>
            \<not> file_contains (files s1) (projectPath @ [''src'', ''index.ts'']) export_async \<and>
            \<not> file_contains (files s1) (projectPath @ [''src'', ''index.ts'']) export_hash
            \<longrightarrow> files s2 = files s1)"
proof (cases "nodeDefinitions opts")
  case True
  then have "steps [pruneNode env opts projectPath, pruneNode env opts projectPath] s = Done s1"
    using assms by (simp add: pruneNode_def)
  then show ?thesis by blast
next
  case False
  from pruneNode_absent_noop [OF False assms] obtain s2 where
    s2: "pruneNode env opts projectPath s1 = Done s2" and
    r: "\<forall>q. q \<noteq> projectPath @ [''tsconfig.json''] \<and>
                q \<noteq> projectPath @ [''src'', ''index.ts''] \<longrightarrow> files s2 q = files s1 q"
       "\<not> file_contains (files s1) (projectPath @ [''tsconfig.json'']) types_with_node \<and>
            \<not> file_contains (files s1) (projectPath @ [''src'', ''index.ts'']) export_async \<and>
            \<not> file_contains (files s1) (projectPath @ [''src'', ''index.ts'']) export_hash
            \<longrightarrow> files s2 = files s1"
    by blast
  have "steps [pruneNode env opts projectPath, pruneNode env opts projectPath] s = Done s2"
    unfolding steps_two_Done using assms s2 by blast
  then show ?thesis using r by blast
qed

text \<open>The theorem at the sample project.\<close>

theorem C4_prune_node_twice_witness:
  "failure (pruneNode demo_env (demo_options\<lparr>nodeDefinitions := False\<rparr>) [''work'', ''demo'']
              demo_state) = None \<and>
   (\<exists>s2. steps [pruneNode demo_env (demo_options\<lparr>nodeDefinitions := False\<rparr>) [''work'', ''demo''],
                pruneNode demo_env (demo_options\<lparr>nodeDefinitions := False\<rparr>) [''work'', ''demo'']]
             demo_state = Done s2 \<and>
         files s2
           = files (state_of (pruneNode demo_env (demo_options\<lparr>nodeDefinitions := False\<rparr>)
                                [''work'', ''demo''] demo_state)))"
proof -
  let ?o = "demo_options\<lparr>nodeDefinitions := False\<rparr>"
  let ?once = "pruneNode demo_env ?o [''work'', ''demo''] demo_state"
  have ok: "failure ?once = None" by code_simp
  then have run: "?once = Done (state_of ?once)" by (rule Done_state_of)
  have a: "\<not> file_contains (files (state_of ?once)) ([''work'', ''demo''] @ [''tsconfig.json''])
              types_with_node"
    by code_simp
  have b: "\<not> file_contains (files (state_of ?once)) ([''work'', ''demo''] @ [''src'', ''index.ts''])
              export_async"
    by code_simp
  have c: "\<not> file_contains (files (state_of ?once)) ([''work'', ''demo''] @ [''src'', ''index.ts''])
              export_hash"
    by code_simp
  from C4_prune_node_twice [OF run] a b c ok show ?thesis by blast
qed




subsection \<open>Pruning in the whole run\<close>















end
